theory Spec2Isabelle
  imports Complex_Main
begin

section \<open>ScaPyra: planar SCARA inverse kinematics\<close>

text \<open>
  Shallow embedding of \<^verbatim>\<open>geometry.py\<close> and of the class \<^verbatim>\<open>SCARAController\<close>
  of \<^verbatim>\<open>scara.py\<close>. A Python or numpy float is a real number. The functions of the
  controller, and the geometry functions where the controller calls them, are modelled
  with exact arithmetic: no rounding, no NaN and no infinity. The two geometry functions
  whose behaviour at the boundary of a range depends on rounding,
  \<open>find_circle_intersections\<close> and \<open>calculate_angle\<close>, are modelled a second time with
  the result of every floating-point operation rounded to a double (the definitions
  with the suffix \<open>_fp\<close>); the exact definitions are the instances of these for the
  rounding that changes nothing.
\<close>

subsection \<open>Python values and exceptions\<close>

text \<open>
  The values that travel between the geometry functions: \<^verbatim>\<open>None\<close>, a float, a numpy
  array (its shape and its elements in row-major order), and any other object (a
  Python list, for instance, which is not an \<^verbatim>\<open>np.ndarray\<close>).
\<close>

datatype pyval =
    PyNone
  | PyFloat real
  | NdArray "nat list" "real list"
  | PyOther

datatype error = ValueError | ZeroDivisionError

subsection \<open>Library functions used by the source\<close>

text \<open>\<^verbatim>\<open>np.linalg.norm\<close> of a vector: the Euclidean norm.\<close>

definition linalg_norm :: "real list \<Rightarrow> real" where
  "linalg_norm v = sqrt (sum_list (map (\<lambda>t. t\<^sup>2) v))"

text \<open>\<^verbatim>\<open>np.degrees\<close>.\<close>

definition degrees :: "real \<Rightarrow> real" where
  "degrees r = r * 180 / pi"

text \<open>\<^verbatim>\<open>np.arctan2(dy, dx)\<close>: the angle of the point (dx, dy), in (-pi, pi], 0 at the origin.\<close>

definition arctan2 :: "real \<Rightarrow> real \<Rightarrow> real" where
  "arctan2 dy dx =
     (if 0 < dx then arctan (dy / dx)
      else if dx < 0 then (if 0 \<le> dy then arctan (dy / dx) + pi else arctan (dy / dx) - pi)
      else if 0 < dy then pi / 2
      else if dy < 0 then - (pi / 2)
      else 0)"

text \<open>\<^verbatim>\<open>np.argmin\<close> of a vector: the first index of a least element.\<close>

fun argmin :: "real list \<Rightarrow> nat" where
  "argmin [] = 0"
| "argmin [a] = 0"
| "argmin (a # b # bs) = (let i = argmin (b # bs) in if a \<le> (b # bs) ! i then 0 else Suc i)"

text \<open>Python's \<^verbatim>\<open>a % b\<close> on floats: the remainder has the sign of the divisor.\<close>

definition py_mod :: "real \<Rightarrow> real \<Rightarrow> real" where
  "py_mod a b = a - b * of_int \<lfloor>a / b\<rfloor>"

text \<open>Python's \<^verbatim>\<open>round\<close> of a float to an integer: a tie goes to the even neighbour.\<close>

definition py_round :: "real \<Rightarrow> int" where
  "py_round r =
     (let f = \<lfloor>r\<rfloor>; t = r - of_int f
      in if t < 1 / 2 then f
         else if 1 / 2 < t then f + 1
         else if even f then f else f + 1)"

text \<open>
  \<^verbatim>\<open>np.linspace(start, stop, num)\<close>: \<^verbatim>\<open>num\<close> samples \<^verbatim>\<open>start + i * step\<close> with
  \<^verbatim>\<open>step = (stop - start) / (num - 1)\<close>, the last one set to \<^verbatim>\<open>stop\<close>; a single sample
  is \<^verbatim>\<open>start\<close>; a negative \<^verbatim>\<open>num\<close> raises ValueError.
\<close>

definition linspace :: "real \<Rightarrow> real \<Rightarrow> int \<Rightarrow> error + real list" where
  "linspace start stop num =
     (if num < 0 then Inl ValueError
      else if num = 0 then Inr []
      else if num = 1 then Inr [start]
      else Inr (map (\<lambda>i. start + real i * ((stop - start) / real_of_int (num - 1)))
                    [0 ..< nat num - 1] @ [stop]))"

subsection \<open>geometry.py\<close>

text \<open>
  \<^verbatim>\<open>find_circle_intersections(p1, r1, p2, r2)\<close>. The arguments \<open>p1\<close> and \<open>p2\<close> are the
  centres after \<^verbatim>\<open>np.asarray(., dtype=float).reshape(-1)\<close>, that is, as flat vectors.
  The result is \<^verbatim>\<open>None\<close> or the array of shape (2, 2) holding \<open>p3 + offset\<close> and
  \<open>p3 - offset\<close>.
\<close>

definition find_circle_intersections :: "real list \<Rightarrow> real \<Rightarrow> real list \<Rightarrow> real \<Rightarrow> pyval" where
  "find_circle_intersections p1 r1 p2 r2 =
     (if length p1 \<noteq> 2 \<or> length p2 \<noteq> 2 then PyNone
      else
        let d = linalg_norm (map2 (-) p2 p1);
            eps = 1 / 10 ^ 9
        in if d > r1 + r2 \<or> d < \<bar>r1 - r2\<bar> \<or> d < eps then PyNone
           else
             let a = (r1\<^sup>2 - r2\<^sup>2 + d\<^sup>2) / (2 * d);
                 h_sq = r1\<^sup>2 - a\<^sup>2
             in if h_sq < 0 \<and> \<not> h_sq > - (1 / 10 ^ 9) then PyNone
                else
                  let h_sq' = (if h_sq < 0 then 0 else h_sq);
                      h = sqrt h_sq';
                      p3 = [p1 ! 0 + a * (p2 ! 0 - p1 ! 0) / d, p1 ! 1 + a * (p2 ! 1 - p1 ! 1) / d];
                      offset = [h * (- (p2 ! 1 - p1 ! 1)) / d, h * (p2 ! 0 - p1 ! 0) / d]
                  in NdArray [2, 2] (map2 (+) p3 offset @ map2 (-) p3 offset))"

text \<open>\<^verbatim>\<open>select_intersection_point(intersections)\<close>.\<close>

definition select_intersection_point :: "pyval \<Rightarrow> pyval" where
  "select_intersection_point intersections =
     (case intersections of
        NdArray sh xs \<Rightarrow>
          if sh \<noteq> [2, 2] then PyNone
          else
            let idx = argmin [xs ! 0, xs ! 2]
            in NdArray [2] [xs ! (2 * idx), xs ! (2 * idx + 1)]
      | _ \<Rightarrow> PyNone)"

text \<open>
  \<^verbatim>\<open>calculate_angle(point, intersection)\<close>. The test \<^verbatim>\<open>np.isnan(angle)\<close> of the source
  never holds for a real number and has no branch here.
\<close>

definition calculate_angle :: "pyval \<Rightarrow> pyval \<Rightarrow> real option" where
  "calculate_angle point intersection =
     (case (point, intersection) of
        (NdArray shp p, NdArray shq q) \<Rightarrow>
          if shp \<noteq> [2] \<or> shq \<noteq> [2] then None
          else
            let dx = q ! 0 - p ! 0;
                dy = q ! 1 - p ! 1;
                angle = degrees (arctan2 dy dx)
            in Some (if angle < 0 then angle + 360 else angle)
      | _ \<Rightarrow> None)"

subsection \<open>geometry.py in double precision\<close>

text \<open>
  Rounding to the nearest IEEE 754 double, a tie going to the even mantissa: a real
  number in the binade \<open>[2\<^sup>e, 2\<^sup>e\<^sup>+\<^sup>1)\<close> is rounded to a multiple of \<open>2\<^sup>e\<^sup>-\<^sup>5\<^sup>2\<close>, and
  below \<open>2\<^sup>-\<^sup>1\<^sup>0\<^sup>2\<^sup>2\<close> to a multiple of \<open>2\<^sup>-\<^sup>1\<^sup>0\<^sup>7\<^sup>4\<close>. Overflow to infinity is not
  modelled: the statements are about finite results.
\<close>

definition binade :: "real \<Rightarrow> int" where
  "binade v = max \<lfloor>log 2 \<bar>v\<bar>\<rfloor> (- 1022)"

definition round64 :: "real \<Rightarrow> real" where
  "round64 v =
     (if v = 0 then 0
      else
        let q = 2 powr real_of_int (binade v - 52)
        in q * real_of_int (py_round (v / q)))"

text \<open>
  One implementation of \<^verbatim>\<open>np.linalg.norm\<close> on doubles: the rounded square root of the
  rounded sum of the rounded squares.
\<close>

definition linalg_norm_fp :: "(real \<Rightarrow> real) \<Rightarrow> real list \<Rightarrow> real" where
  "linalg_norm_fp rnd v = rnd (sqrt (rnd (sum_list (map (\<lambda>t. rnd (t * t)) v))))"

text \<open>
  \<^verbatim>\<open>find_circle_intersections\<close> with the rounding \<open>rnd\<close> applied to the result of every
  operation, in the order of the source; \<^verbatim>\<open>x**2\<close> is the rounded product \<open>x * x\<close>, the
  literal \<^verbatim>\<open>1e-9\<close> is the rounded \<open>1 / 10\<^sup>9\<close>, comparisons are exact. The centres and the
  radii are doubles. The library function \<^verbatim>\<open>np.linalg.norm\<close> is the parameter \<open>np_norm\<close>,
  so that nothing is assumed about the way the library adds up the squares.
\<close>

definition find_circle_intersections_fp ::
    "(real \<Rightarrow> real) \<Rightarrow> (real list \<Rightarrow> real) \<Rightarrow> real list \<Rightarrow> real \<Rightarrow> real list \<Rightarrow> real
      \<Rightarrow> pyval" where
  "find_circle_intersections_fp rnd np_norm p1 r1 p2 r2 =
     (if length p1 \<noteq> 2 \<or> length p2 \<noteq> 2 then PyNone
      else
        let d = np_norm (map2 (\<lambda>s t. rnd (s - t)) p2 p1);
            eps = rnd (1 / 10 ^ 9)
        in if d > rnd (r1 + r2) \<or> d < \<bar>rnd (r1 - r2)\<bar> \<or> d < eps then PyNone
           else
             let a = rnd (rnd (rnd (rnd (r1 * r1) - rnd (r2 * r2)) + rnd (d * d)) / rnd (2 * d));
                 h_sq = rnd (rnd (r1 * r1) - rnd (a * a))
             in if h_sq < 0 \<and> \<not> h_sq > - rnd (1 / 10 ^ 9) then PyNone
                else
                  let h_sq' = (if h_sq < 0 then 0 else h_sq);
                      h = rnd (sqrt h_sq');
                      p3 = [rnd (p1 ! 0 + rnd (rnd (a * rnd (p2 ! 0 - p1 ! 0)) / d)),
                            rnd (p1 ! 1 + rnd (rnd (a * rnd (p2 ! 1 - p1 ! 1)) / d))];
                      offset = [rnd (rnd (h * (- rnd (p2 ! 1 - p1 ! 1))) / d),
                                rnd (rnd (h * rnd (p2 ! 0 - p1 ! 0)) / d)]
                  in NdArray [2, 2] (map2 (\<lambda>s t. rnd (s + t)) p3 offset
                                     @ map2 (\<lambda>s t. rnd (s - t)) p3 offset))"

text \<open>
  \<^verbatim>\<open>calculate_angle\<close> with the rounding \<open>rnd\<close> applied to the two subtractions and to
  \<^verbatim>\<open>angle += 360.0\<close>. The library functions \<^verbatim>\<open>np.arctan2\<close> and \<^verbatim>\<open>np.degrees\<close> are
  parameters; \<open>np_arctan2\<close> returns \<open>None\<close> for NaN, which \<^verbatim>\<open>np.degrees\<close> keeps and the
  test \<^verbatim>\<open>np.isnan(angle)\<close> of the source turns into the result \<^verbatim>\<open>None\<close>.
\<close>

definition calculate_angle_fp ::
    "(real \<Rightarrow> real) \<Rightarrow> (real \<Rightarrow> real \<Rightarrow> real option) \<Rightarrow> (real \<Rightarrow> real) \<Rightarrow> pyval \<Rightarrow> pyval
      \<Rightarrow> real option" where
  "calculate_angle_fp rnd np_arctan2 np_degrees point intersection =
     (case (point, intersection) of
        (NdArray shp p, NdArray shq q) \<Rightarrow>
          if shp \<noteq> [2] \<or> shq \<noteq> [2] then None
          else
            let dx = rnd (q ! 0 - p ! 0);
                dy = rnd (q ! 1 - p ! 1)
            in (case np_arctan2 dy dx of
                  None \<Rightarrow> None
                | Some radians \<Rightarrow>
                    let angle = np_degrees radians
                    in Some (if angle < 0 then rnd (angle + 360) else angle))
      | _ \<Rightarrow> None)"

subsection \<open>scara.py: the controller\<close>

text \<open>
  Modelled from the spec: the actuator, class \<^verbatim>\<open>PCA9685\<close> of the module \<^verbatim>\<open>driver\<close>, which
  is not among the sources. The controller only calls \<^verbatim>\<open>setServoPulse(channel, pulse)\<close>
  on it and reads nothing back; the spec describes a capability "set channel C to
  pulse-width P" that returns nothing. The model keeps the list of the commands issued,
  oldest first, and a command never fails.
\<close>

type_synonym pwm_log = "(int \<times> int) list"

definition setServoPulse :: "pwm_log \<Rightarrow> int \<Rightarrow> int \<Rightarrow> pwm_log" where
  "setServoPulse cmds channel pulse = cmds @ [(channel, pulse)]"

text \<open>The attributes of a \<^verbatim>\<open>SCARAController\<close> instance.\<close>

record controller =
  pwm :: pwm_log
  motor1_channel :: int
  motor2_channel :: int
  lift_servo_channel :: int
  x :: real
  y :: real
  engine_spacing :: real
  arm :: real
  forearm :: real
  max_angle :: real
  min_pulse :: int
  max_pulse :: int
  motor1_angle_offset :: real
  motor2_angle_offset :: real
  x1 :: real
  y1 :: real
  x2 :: real
  y2 :: real

text \<open>
  \<^verbatim>\<open>__init__\<close>: the arguments are the actuator, the TCP, the engine spacing, the two
  arm lengths and the calibration; the three channels have the defaults 0, 1, 2 of the
  source. The call \<^verbatim>\<open>setPWMFreq(50)\<close> is not a servo command and leaves no entry in the
  list of commands.
\<close>

definition init :: "pwm_log \<Rightarrow> real \<Rightarrow> real \<Rightarrow> real \<Rightarrow> real \<Rightarrow> real \<Rightarrow> real \<Rightarrow> int \<Rightarrow> int
    \<Rightarrow> real \<Rightarrow> real \<Rightarrow> controller" where
  "init pwm0 tcp_x tcp_y spacing arm0 forearm0 max_angle0 min_pulse0 max_pulse0 offset1 offset2 =
     \<lparr> pwm = pwm0, motor1_channel = 0, motor2_channel = 1, lift_servo_channel = 2,
       x = tcp_x, y = tcp_y, engine_spacing = spacing, arm = arm0, forearm = forearm0,
       max_angle = max_angle0, min_pulse = min_pulse0, max_pulse = max_pulse0,
       motor1_angle_offset = offset1, motor2_angle_offset = offset2,
       x1 = - spacing / 2, y1 = - 50, x2 = spacing / 2, y2 = - 50 \<rparr>"

text \<open>
  \<^verbatim>\<open>angle_to_pulse(angle, motor)\<close>. The two \<^verbatim>\<open>raise ValueError\<close> of the source are
  the results \<open>Inl ValueError\<close>; the float division by \<^verbatim>\<open>self.max_angle\<close> raises
  ZeroDivisionError when that is zero.
\<close>

definition angle_to_pulse :: "controller \<Rightarrow> real \<Rightarrow> string \<Rightarrow> error + int" where
  "angle_to_pulse self angle motor =
     (if motor \<noteq> ''motor1'' \<and> motor \<noteq> ''motor2'' then Inl ValueError
      else
        let angle_offset =
              (if motor = ''motor1'' then motor1_angle_offset self else motor2_angle_offset self);
            adjusted_angle = py_mod (angle - angle_offset) 360
        in if \<not> (0 \<le> adjusted_angle \<and> adjusted_angle \<le> max_angle self) then Inl ValueError
           else if max_angle self = 0 then Inl ZeroDivisionError
           else Inr (py_round ((adjusted_angle / max_angle self)
                       * real_of_int (max_pulse self - min_pulse self)
                     + real_of_int (min_pulse self))))"

text \<open>
  \<^verbatim>\<open>flat_move(target_x, target_y)\<close>. The result is the pair of what the call gives
  (\<open>Inl e\<close>: the exception \<open>e\<close> leaves the method; \<open>Inr None\<close>: it returns \<^verbatim>\<open>None\<close>;
  \<open>Inr (Some d)\<close>: it returns the dictionary \<open>d\<close>) and of the controller after the call.
\<close>

type_synonym move_data = "(string \<times> pyval) list"

definition flat_move ::
    "controller \<Rightarrow> real \<Rightarrow> real \<Rightarrow> (error + move_data option) \<times> controller" where
  "flat_move self target_x target_y =
     (if target_y < 0 then (Inr None, self)
      else
        let r1 = arm self;
            r2 = arm self;
            intersections1 = find_circle_intersections
              [x1 self, y1 self] r1 [target_x, target_y] (forearm self);
            intersections2 = find_circle_intersections
              [x2 self, y2 self] r2 [target_x, target_y] (forearm self)
        in if intersections1 = PyNone \<or> intersections2 = PyNone then (Inr None, self)
           else
             let selected_intersection1 = select_intersection_point intersections1;
                 selected_intersection2 = select_intersection_point intersections2
             in if selected_intersection1 = PyNone \<or> selected_intersection2 = PyNone
                then (Inr None, self)
                else
                  (case (calculate_angle (NdArray [2] [x1 self, y1 self]) selected_intersection1,
                         calculate_angle (NdArray [2] [x2 self, y2 self]) selected_intersection2) of
                     (Some angle1, Some angle2) \<Rightarrow>
                       if angle1 < 45 \<or> angle1 > 315 then (Inr None, self)
                       else if \<not> (angle2 \<le> 135 \<or> angle2 \<ge> 225) then (Inr None, self)
                       else
                         let self1 = self\<lparr>x := target_x, y := target_y\<rparr>
                         in (case angle_to_pulse self1 angle1 ''motor1'' of
                               Inl e \<Rightarrow> (Inl e, self1)
                             | Inr pulse1 \<Rightarrow>
                                 let self2 = self1\<lparr>pwm :=
                                       setServoPulse (pwm self1) (motor1_channel self1) pulse1\<rparr>
                                 in (case angle_to_pulse self2 angle2 ''motor2'' of
                                       Inl e \<Rightarrow> (Inl e, self2)
                                     | Inr pulse2 \<Rightarrow>
                                         let self3 = self2\<lparr>pwm :=
                                               setServoPulse (pwm self2) (motor2_channel self2) pulse2\<rparr>
                                         in (Inr (Some
                                              [(''x1'', PyFloat (x1 self3)), (''y1'', PyFloat (y1 self3)),
                                               (''r1'', PyFloat r1),
                                               (''x2'', PyFloat (x2 self3)), (''y2'', PyFloat (y2 self3)),
                                               (''r2'', PyFloat r2),
                                               (''x3'', PyFloat target_x), (''y3'', PyFloat target_y),
                                               (''r3'', PyFloat (forearm self3)),
                                               (''intersection1'', selected_intersection1),
                                               (''intersection2'', selected_intersection2),
                                               (''angle1'', PyFloat angle1),
                                               (''angle2'', PyFloat angle2)]), self3)))
                   | _ \<Rightarrow> (Inr None, self)))"

text \<open>
  Notation for the three stages that \<open>flat_move\<close> runs for one arm with shoulder
  pivot \<open>(px, py)\<close> and target \<open>(tx, ty)\<close>: the intersection pair, the selected
  point, and the joint angle.
\<close>

abbreviation arm_intersections :: "controller \<Rightarrow> real \<Rightarrow> real \<Rightarrow> real \<Rightarrow> real \<Rightarrow> pyval" where
  "arm_intersections self px py tx ty \<equiv>
     find_circle_intersections [px, py] (arm self) [tx, ty] (forearm self)"

abbreviation arm_selected :: "controller \<Rightarrow> real \<Rightarrow> real \<Rightarrow> real \<Rightarrow> real \<Rightarrow> pyval" where
  "arm_selected self px py tx ty \<equiv> select_intersection_point (arm_intersections self px py tx ty)"

abbreviation arm_angle :: "controller \<Rightarrow> real \<Rightarrow> real \<Rightarrow> real \<Rightarrow> real \<Rightarrow> real option" where
  "arm_angle self px py tx ty \<equiv>
     calculate_angle (NdArray [2] [px, py]) (arm_selected self px py tx ty)"

text \<open>
  The loop of \<^verbatim>\<open>interpolated_flat_move\<close> over the waypoints: it returns \<^verbatim>\<open>False\<close> at
  the first waypoint whose move returns \<^verbatim>\<open>None\<close>, an exception of \<^verbatim>\<open>flat_move\<close>
  leaves the loop, and \<^verbatim>\<open>time.sleep(delay)\<close> raises ValueError for a negative delay
  and otherwise only waits.
\<close>

fun run_waypoints :: "controller \<Rightarrow> real \<Rightarrow> (real \<times> real) list \<Rightarrow> (error + bool) \<times> controller" where
  "run_waypoints self delay [] = (Inr True, self)"
| "run_waypoints self delay (w # ws) =
     (case flat_move self (fst w) (snd w) of
        (Inl e, self') \<Rightarrow> (Inl e, self')
      | (Inr None, self') \<Rightarrow> (Inr False, self')
      | (Inr (Some move_data), self') \<Rightarrow>
          if delay < 0 then (Inl ValueError, self') else run_waypoints self' delay ws)"

text \<open>\<^verbatim>\<open>interpolated_flat_move(target_x, target_y, steps, delay)\<close>.\<close>

definition interpolated_flat_move ::
    "controller \<Rightarrow> real \<Rightarrow> real \<Rightarrow> int \<Rightarrow> real \<Rightarrow> (error + bool) \<times> controller" where
  "interpolated_flat_move self target_x target_y steps delay =
     (case (linspace (x self) target_x steps, linspace (y self) target_y steps) of
        (Inr x_values, Inr y_values) \<Rightarrow> run_waypoints self delay (zip x_values y_values)
      | _ \<Rightarrow> (Inl ValueError, self))"

section \<open>Properties of the geometry functions\<close>

subsection \<open>Circle intersection\<close>

lemma linalg_norm_2: "linalg_norm [u, v] = sqrt (u\<^sup>2 + v\<^sup>2)"
  by (simp add: linalg_norm_def)

text \<open>
  In exact arithmetic the square of the half-chord is never negative once the distance
  of the centres has passed the three guards, so the numerical safety branch is not
  taken.
\<close>

lemma h_sq_nonneg:
  fixes d r1 r2 :: real
  assumes d: "0 < d" and up: "d \<le> r1 + r2" and lo: "\<bar>r1 - r2\<bar> \<le> d"
  shows "0 \<le> r1\<^sup>2 - ((r1\<^sup>2 - r2\<^sup>2 + d\<^sup>2) / (2 * d))\<^sup>2"
proof -
  have f1: "0 \<le> (r1 + r2 - d) * (r1 + r2 + d)" using d up by simp
  have f2: "0 \<le> (d - (r1 - r2)) * (d + (r1 - r2))" using lo by (intro mult_nonneg_nonneg) linarith+
  have "0 \<le> ((r1 + r2 - d) * (r1 + r2 + d)) * ((d - (r1 - r2)) * (d + (r1 - r2)))"
    using f1 f2 by (rule mult_nonneg_nonneg)
  also have "\<dots> = 4 * d\<^sup>2 * r1\<^sup>2 - (r1\<^sup>2 - r2\<^sup>2 + d\<^sup>2)\<^sup>2"
    by (simp add: power2_eq_square algebra_simps)
  finally have g: "(r1\<^sup>2 - r2\<^sup>2 + d\<^sup>2)\<^sup>2 \<le> 4 * d\<^sup>2 * r1\<^sup>2" by simp
  have "((r1\<^sup>2 - r2\<^sup>2 + d\<^sup>2) / (2 * d))\<^sup>2 = (r1\<^sup>2 - r2\<^sup>2 + d\<^sup>2)\<^sup>2 / (4 * d\<^sup>2)"
    by (simp add: power_divide power_mult_distrib)
  also have "\<dots> \<le> r1\<^sup>2" using g d by (simp add: divide_le_eq mult.commute)
  finally show ?thesis by simp
qed

lemma fci_raw:
  "find_circle_intersections [ax, ay] r1 [bx, by] r2 =
     (let d = linalg_norm [bx - ax, by - ay] in
      if d > r1 + r2 \<or> d < \<bar>r1 - r2\<bar> \<or> d < 1 / 10 ^ 9 then PyNone
      else
        let a = (r1\<^sup>2 - r2\<^sup>2 + d\<^sup>2) / (2 * d); h_sq = r1\<^sup>2 - a\<^sup>2
        in if h_sq < 0 \<and> \<not> h_sq > - (1 / 10 ^ 9) then PyNone
           else
             let h = sqrt (if h_sq < 0 then 0 else h_sq)
             in NdArray [2, 2]
             [ax + a * (bx - ax) / d + h * (- (by - ay)) / d,
              ay + a * (by - ay) / d + h * (bx - ax) / d,
              ax + a * (bx - ax) / d - h * (- (by - ay)) / d,
              ay + a * (by - ay) / d - h * (bx - ax) / d])"
  by (simp add: find_circle_intersections_def Let_def)

lemma fci_unfold:
  "find_circle_intersections [ax, ay] r1 [bx, by] r2 =
     (let d = linalg_norm [bx - ax, by - ay] in
      if d > r1 + r2 \<or> d < \<bar>r1 - r2\<bar> \<or> d < 1 / 10 ^ 9 then PyNone
      else
        let a = (r1\<^sup>2 - r2\<^sup>2 + d\<^sup>2) / (2 * d); h = sqrt (r1\<^sup>2 - a\<^sup>2)
        in NdArray [2, 2]
             [ax + a * (bx - ax) / d + h * (- (by - ay)) / d,
              ay + a * (by - ay) / d + h * (bx - ax) / d,
              ax + a * (bx - ax) / d - h * (- (by - ay)) / d,
              ay + a * (by - ay) / d - h * (bx - ax) / d])"
proof -
  define d where "d = linalg_norm [bx - ax, by - ay]"
  show ?thesis
  proof (cases "d > r1 + r2 \<or> d < \<bar>r1 - r2\<bar> \<or> d < 1 / 10 ^ 9")
    case True
    then show ?thesis
      unfolding fci_raw Let_def d_def[symmetric] by simp
  next
    case False
    have "(0::real) < 1 / 10 ^ 9" by simp
    with False have "0 < d" "d \<le> r1 + r2" "\<bar>r1 - r2\<bar> \<le> d"
      by linarith+
    from h_sq_nonneg[OF this]
    have h: "\<not> r1\<^sup>2 - ((r1\<^sup>2 - r2\<^sup>2 + d\<^sup>2) / (2 * d))\<^sup>2 < 0" by simp
    show ?thesis
      unfolding fci_raw Let_def d_def[symmetric] using False h by simp
  qed
qed


text \<open>
  In exact arithmetic the function returns a pair exactly on the band
  \<open>|r1 - r2| \<le> d \<le> r1 + r2\<close> with \<open>d \<ge> eps\<close>, and \<^verbatim>\<open>None\<close> for every negative radius.
  Neither holds for doubles, see the last section.
\<close>

lemma fci_exists_iff:
  "(\<exists>pts. find_circle_intersections [ax, ay] r1 [bx, by] r2 = NdArray [2, 2] pts \<and> length pts = 4)
     = (\<bar>r1 - r2\<bar> \<le> linalg_norm [bx - ax, by - ay]
        \<and> linalg_norm [bx - ax, by - ay] \<le> r1 + r2
        \<and> 1 / 10 ^ 9 \<le> linalg_norm [bx - ax, by - ay])"
  unfolding fci_unfold Let_def by (auto simp: not_less)

lemma fci_None_iff:
  "(find_circle_intersections [ax, ay] r1 [bx, by] r2 = PyNone)
     = (\<not> (\<bar>r1 - r2\<bar> \<le> linalg_norm [bx - ax, by - ay]
        \<and> linalg_norm [bx - ax, by - ay] \<le> r1 + r2
        \<and> 1 / 10 ^ 9 \<le> linalg_norm [bx - ax, by - ay]))"
  unfolding fci_unfold Let_def by (auto simp: not_less)

lemma fci_negative_radius:
  assumes "r1 < 0 \<or> r2 < 0"
  shows "find_circle_intersections [ax, ay] r1 [bx, by] r2 = PyNone"
proof -
  have "0 \<le> linalg_norm [bx - ax, by - ay]" by (simp add: linalg_norm_def)
  with assms show ?thesis unfolding fci_unfold Let_def by (auto simp: not_less)
qed

text \<open>
  In exact arithmetic two tangent circles with non-negative radii and a distance of at
  least \<open>eps\<close> give the point of tangency twice.
\<close>

lemma fci_tangent_exact:
  assumes t: "linalg_norm [bx - ax, by - ay] = r1 + r2" and "0 \<le> r1" "0 \<le> r2" "1 / 10 ^ 9 \<le> r1 + r2"
  shows "find_circle_intersections [ax, ay] r1 [bx, by] r2 =
    NdArray [2, 2] [ax + r1 * (bx - ax) / (r1 + r2), ay + r1 * (by - ay) / (r1 + r2),
                    ax + r1 * (bx - ax) / (r1 + r2), ay + r1 * (by - ay) / (r1 + r2)]"
proof -
  have pos: "0 < r1 + r2" using assms(4) by (rule less_le_trans[rotated]) simp
  have a: "(r1\<^sup>2 - r2\<^sup>2 + (r1 + r2)\<^sup>2) / (2 * (r1 + r2)) = r1"
    using pos by (simp add: field_simps power2_eq_square)
  have g: "\<not> (r1 + r2 < \<bar>r1 - r2\<bar>)" using assms(2,3) by simp
  show ?thesis unfolding fci_unfold Let_def t a using g assms(4) by (simp add: not_less)
qed

text \<open>
  A closed form of the result without the distance itself: with \<open>N\<close> the squared
  distance of the centres, \<open>K = r1\<^sup>2 - r2\<^sup>2 + N\<close> and \<open>w \<ge> 0\<close> such that
  \<open>w\<^sup>2 = 4 r1\<^sup>2 N - K\<^sup>2\<close>, the two points have the coordinates below. It serves to
  evaluate the function at concrete circles.
\<close>

lemma fci_eval:
  assumes N: "N = (bx - ax)\<^sup>2 + (by - ay)\<^sup>2"
    and K: "K = r1\<^sup>2 - r2\<^sup>2 + N"
    and w: "0 \<le> w" "w\<^sup>2 = 4 * r1\<^sup>2 * N - K\<^sup>2"
    and g: "0 \<le> r1 + r2" "N \<le> (r1 + r2)\<^sup>2" "(r1 - r2)\<^sup>2 \<le> N" "1 / 10 ^ 18 \<le> N"
  shows "find_circle_intersections [ax, ay] r1 [bx, by] r2 =
    NdArray [2, 2]
      [ax + K * (bx - ax) / (2 * N) - w * (by - ay) / (2 * N),
       ay + K * (by - ay) / (2 * N) + w * (bx - ax) / (2 * N),
       ax + K * (bx - ax) / (2 * N) + w * (by - ay) / (2 * N),
       ay + K * (by - ay) / (2 * N) - w * (bx - ax) / (2 * N)]"
proof -
  define d where "d = linalg_norm [bx - ax, by - ay]"
  have dN: "d = sqrt N" by (simp add: d_def linalg_norm_2 N)
  have Npos: "0 < N" using g(4) by (rule less_le_trans[rotated]) simp
  have dpos: "0 < d" using Npos by (simp add: dN)
  have d2: "d\<^sup>2 = N" using Npos by (simp add: dN)
  have dd: "d * d = N" using d2 by (simp add: power2_eq_square)
  have g1: "d \<le> r1 + r2" unfolding dN using g(1,2) by (simp add: real_le_lsqrt)
  have g2: "\<bar>r1 - r2\<bar> \<le> d" unfolding dN using g(3) by (simp add: real_le_rsqrt)
  have g3: "1 / 10 ^ 9 \<le> d" unfolding dN using g(4) by (intro real_le_rsqrt) (simp add: power_divide)
  have a: "(r1\<^sup>2 - r2\<^sup>2 + d\<^sup>2) / (2 * d) = K / (2 * d)" by (simp add: d2 K)
  have "r1\<^sup>2 - (K / (2 * d))\<^sup>2 = (w / (2 * d))\<^sup>2"
    using Npos by (simp add: power_divide power_mult_distrib d2 w(2) diff_divide_distrib)
  then have h: "sqrt (r1\<^sup>2 - (K / (2 * d))\<^sup>2) = w / (2 * d)"
    using w(1) dpos by (simp add: real_sqrt_abs)
  have e1: "K / (2 * d) * t / d = K * t / (2 * N)" for t
    using dpos by (simp add: dd[symmetric])
  have e2: "w / (2 * d) * t / d = w * t / (2 * N)" for t
    using dpos by (simp add: dd[symmetric])
  show ?thesis
    unfolding fci_unfold Let_def d_def[symmetric] a h e1 e2
    using g1 g2 g3 by (simp add: not_less) (simp add: right_diff_distrib diff_divide_distrib)
qed

subsection \<open>Selection of an intersection point\<close>

lemma select_pair:
  "select_intersection_point (NdArray [2, 2] [ax, ay, bx, by]) =
     NdArray [2] (if bx < ax then [bx, by] else [ax, ay])"
  by (simp add: select_intersection_point_def)

text \<open>
  C6. For a pair of two points \<open>select_intersection_point\<close> returns the point with the
  smaller x-coordinate, and the first point when the x-coordinates are equal; for
  \<^verbatim>\<open>None\<close>, for an object that is not an array and for an array whose shape is not
  (2, 2) it returns \<^verbatim>\<open>None\<close>. The function has no raising branch.
\<close>

theorem select_intersection_point_min_x:
  "select_intersection_point (NdArray [2, 2] [ax, ay, bx, by]) =
     NdArray [2] (if bx < ax then [bx, by] else [ax, ay])
   \<and> select_intersection_point PyNone = PyNone
   \<and> select_intersection_point PyOther = PyNone
   \<and> select_intersection_point (PyFloat r) = PyNone
   \<and> (sh \<noteq> [2, 2] \<longrightarrow> select_intersection_point (NdArray sh xs) = PyNone)"
  by (simp add: select_intersection_point_def)

text \<open>The pairs of the test suite, and an array of shape (1, 3).\<close>

theorem select_intersection_point_min_x_witness:
  "select_intersection_point (NdArray [2, 2] [4, 1, 4, - 5]) = NdArray [2] [4, 1]
   \<and> [1, 3] \<noteq> [2, 2::nat]
   \<and> select_intersection_point (NdArray [1, 3] [1, 2, 3]) = PyNone"
  using select_intersection_point_min_x[of 4 1 4 "- 5" 0 "[1, 3]" "[1, 2, 3]"] by simp

subsection \<open>Bearing angle\<close>

lemma arctan2_bounds: "- pi < arctan2 dy dx \<and> arctan2 dy dx \<le> pi"
proof -
  have b: "- (pi / 2) < arctan (dy / dx)" "arctan (dy / dx) < pi / 2"
    by (rule arctan_lbound, rule arctan_ubound)
  have p: "0 < pi" by simp
  consider "0 < dx" | "dx < 0" "0 \<le> dy" | "dx < 0" "dy < 0" | "dx = 0" by linarith
  then show ?thesis
  proof cases
    case 1 then show ?thesis using b p by (simp add: arctan2_def)
  next
    case 2
    then have "dy / dx \<le> 0" by (simp add: divide_nonneg_neg)
    then have "arctan (dy / dx) \<le> 0" by (simp add: arctan_le_zero_iff)
    then show ?thesis using 2 b p by (simp add: arctan2_def)
  next
    case 3
    then have "0 < dy / dx" by (simp add: divide_neg_neg)
    then have "0 < arctan (dy / dx)" by (simp add: zero_less_arctan_iff)
    then show ?thesis using 3 b p by (simp add: arctan2_def)
  next
    case 4
    then have "arctan2 dy dx = pi / 2 \<or> arctan2 dy dx = - (pi / 2) \<or> arctan2 dy dx = 0"
      by (simp add: arctan2_def)
    then show ?thesis using p by arith
  qed
qed

text \<open>\<open>arctan2\<close> is the polar angle of the point \<open>(dx, dy)\<close>.\<close>

lemma arctan2_polar:
  assumes "dx \<noteq> 0 \<or> dy \<noteq> 0"
  shows "sqrt (dx\<^sup>2 + dy\<^sup>2) * cos (arctan2 dy dx) = dx \<and> sqrt (dx\<^sup>2 + dy\<^sup>2) * sin (arctan2 dy dx) = dy"
proof (cases "dx = 0")
  case True
  with assms show ?thesis by (auto simp: arctan2_def)
next
  case False
  have s: "sqrt (dx\<^sup>2 + dy\<^sup>2) = \<bar>dx\<bar> * sqrt (1 + (dy / dx)\<^sup>2)"
  proof -
    have "dx\<^sup>2 + dy\<^sup>2 = dx\<^sup>2 * (1 + (dy / dx)\<^sup>2)" using False by (simp add: field_simps power2_eq_square)
    then show ?thesis by (simp add: real_sqrt_mult)
  qed
  have nz: "sqrt (1 + (dy / dx)\<^sup>2) \<noteq> 0"
    by (metis add_pos_nonneg less_numeral_extra(1) real_sqrt_eq_zero_cancel_iff less_irrefl zero_le_power2)
  have c: "sqrt (dx\<^sup>2 + dy\<^sup>2) * cos (arctan (dy / dx)) = \<bar>dx\<bar>"
    unfolding s cos_arctan using nz by simp
  have si: "sqrt (dx\<^sup>2 + dy\<^sup>2) * sin (arctan (dy / dx)) = \<bar>dx\<bar> * (dy / dx)"
    unfolding s sin_arctan using nz by simp
  show ?thesis
  proof (cases "0 < dx")
    case True
    then show ?thesis using c si by (simp add: arctan2_def)
  next
    case F: False
    with False have neg: "dx < 0" by simp
    then have "arctan2 dy dx = arctan (dy / dx) + pi \<or> arctan2 dy dx = arctan (dy / dx) - pi"
      by (simp add: arctan2_def)
    then show ?thesis
    proof
      assume e: "arctan2 dy dx = arctan (dy / dx) + pi"
      show ?thesis unfolding e using c si neg by (simp add: cos_add sin_add)
    next
      assume e: "arctan2 dy dx = arctan (dy / dx) - pi"
      show ?thesis unfolding e using c si neg by (simp add: cos_diff sin_diff)
    qed
  qed
qed

lemma degrees_bounds: "- 180 < degrees (arctan2 dy dx) \<and> degrees (arctan2 dy dx) \<le> 180"
proof -
  have p: "0 < pi" by simp
  from arctan2_bounds[of dy dx] show ?thesis
    unfolding degrees_def using p by (simp add: field_simps)
qed

lemma calculate_angle_pair:
  "calculate_angle (NdArray [2] [px, py]) (NdArray [2] [qx, qy]) =
     Some (if degrees (arctan2 (qy - py) (qx - px)) < 0
           then degrees (arctan2 (qy - py) (qx - px)) + 360
           else degrees (arctan2 (qy - py) (qx - px)))"
  by (simp add: calculate_angle_def Let_def)

text \<open>
  In exact arithmetic the result is the angle \<open>atan2 (\<Delta>y, \<Delta>x)\<close> in degrees with 360
  added when it is negative, it lies in [0, 360), and the bearings from (0, 0) to
  (1, 0), (0, 1), (-1, 0) and (0, -1) are 0, 90, 180 and 270 degrees. The upper bound
  does not hold for doubles, see the last section.
\<close>

lemma calculate_angle_exact:
  "calculate_angle (NdArray [2] [px, py]) (NdArray [2] [qx, qy]) =
     Some (if degrees (arctan2 (qy - py) (qx - px)) < 0
           then degrees (arctan2 (qy - py) (qx - px)) + 360
           else degrees (arctan2 (qy - py) (qx - px)))
   \<and> (\<exists>a. calculate_angle (NdArray [2] [px, py]) (NdArray [2] [qx, qy]) = Some a
          \<and> 0 \<le> a \<and> a < 360)
   \<and> calculate_angle (NdArray [2] [0, 0]) (NdArray [2] [1, 0]) = Some 0
   \<and> calculate_angle (NdArray [2] [0, 0]) (NdArray [2] [0, 1]) = Some 90
   \<and> calculate_angle (NdArray [2] [0, 0]) (NdArray [2] [- 1, 0]) = Some 180
   \<and> calculate_angle (NdArray [2] [0, 0]) (NdArray [2] [0, - 1]) = Some 270"
proof -
  have range: "\<exists>a. calculate_angle (NdArray [2] [px, py]) (NdArray [2] [qx, qy]) = Some a
          \<and> 0 \<le> a \<and> a < 360"
    using degrees_bounds[of "qy - py" "qx - px"] unfolding calculate_angle_pair by auto
  have cardinal:
    "calculate_angle (NdArray [2] [0, 0]) (NdArray [2] [1, 0]) = Some 0"
    "calculate_angle (NdArray [2] [0, 0]) (NdArray [2] [0, 1]) = Some 90"
    "calculate_angle (NdArray [2] [0, 0]) (NdArray [2] [- 1, 0]) = Some 180"
    "calculate_angle (NdArray [2] [0, 0]) (NdArray [2] [0, - 1]) = Some 270"
    by (simp_all add: calculate_angle_pair arctan2_def degrees_def)
  show ?thesis using range cardinal calculate_angle_pair[of px py qx qy] by simp
qed

text \<open>An angle in the third quadrant below the diagonal lies strictly between 180 and 225 degrees.\<close>

lemma calculate_angle_third_quadrant:
  assumes "qx - px < 0" "qy - py < 0" "qx - px < qy - py"
  shows "\<exists>a. calculate_angle (NdArray [2] [px, py]) (NdArray [2] [qx, qy]) = Some a \<and> 180 < a \<and> a < 225"
proof -
  define t where "t = (qy - py) / (qx - px)"
  have t0: "0 < t" unfolding t_def using assms by (simp add: divide_neg_neg)
  have t1: "t < 1" unfolding t_def using assms by (simp add: neg_divide_less_eq)
  have a0: "0 < arctan t" using t0 by (simp add: zero_less_arctan_iff)
  have "arctan t < arctan 1" using t1 by (simp only: arctan_less_iff)
  then have a1: "arctan t < pi / 4" by (simp add: arctan_one)
  have at: "arctan2 (qy - py) (qx - px) = arctan t - pi"
    using assms by (simp add: arctan2_def t_def)
  have p: "0 < pi" by simp
  have d: "degrees (arctan t - pi) = arctan t * 180 / pi - 180"
    by (simp add: degrees_def diff_divide_distrib)
  have lo: "0 < arctan t * 180 / pi" using a0 p by simp
  have "arctan t * 180 < 45 * pi" using a1 by simp
  then have hi: "arctan t * 180 / pi < 45" using p by (simp add: pos_divide_less_eq)
  have neg: "degrees (arctan t - pi) < 0" unfolding d using hi by simp
  show ?thesis
    unfolding calculate_angle_pair at using neg lo hi by (simp add: d)
qed

section \<open>Properties of the controller\<close>

subsection \<open>Rounding and remainder\<close>

lemma py_round_of_int [simp]: "py_round (of_int n) = n"
  by (simp add: py_round_def)

lemma py_round_cases: "py_round r = \<lfloor>r\<rfloor> \<or> py_round r = \<lfloor>r\<rfloor> + 1"
  by (simp add: py_round_def Let_def)

lemma py_round_mono:
  assumes "r \<le> s"
  shows "py_round r \<le> py_round s"
proof (cases "\<lfloor>r\<rfloor> = \<lfloor>s\<rfloor>")
  case True
  have "r - of_int \<lfloor>s\<rfloor> \<le> s - of_int \<lfloor>s\<rfloor>" using assms by simp
  then show ?thesis using True
    by (auto simp: py_round_def Let_def)
next
  case False
  have "\<lfloor>r\<rfloor> \<le> \<lfloor>s\<rfloor>" using assms by (rule floor_mono)
  with False have "\<lfloor>r\<rfloor> + 1 \<le> \<lfloor>s\<rfloor>" by linarith
  then show ?thesis using py_round_cases[of r] py_round_cases[of s] by linarith
qed

lemma py_mod_range: "0 \<le> py_mod a 360 \<and> py_mod a 360 < 360"
proof -
  have "of_int \<lfloor>a / 360\<rfloor> \<le> a / 360" "a / 360 < of_int \<lfloor>a / 360\<rfloor> + 1"
    by linarith+
  then show ?thesis unfolding py_mod_def by (simp add: field_simps)
qed

lemma py_mod_id: "0 \<le> a \<Longrightarrow> a < 360 \<Longrightarrow> py_mod a 360 = a"
proof -
  assume "0 \<le> a" "a < 360"
  then have "\<lfloor>a / 360\<rfloor> = 0" by (simp add: floor_eq_iff)
  then show ?thesis by (simp add: py_mod_def)
qed

lemma py_mod_shift: "- 360 \<le> a \<Longrightarrow> a < 0 \<Longrightarrow> py_mod a 360 = a + 360"
proof -
  assume "- 360 \<le> a" "a < 0"
  then have "\<lfloor>a / 360\<rfloor> = - 1" by (simp add: floor_eq_iff)
  then show ?thesis by (simp add: py_mod_def)
qed

subsection \<open>Angle to pulse\<close>

lemma angle_to_pulse_state [simp]:
  "angle_to_pulse (c\<lparr>x := u\<rparr>) = angle_to_pulse c"
  "angle_to_pulse (c\<lparr>y := v\<rparr>) = angle_to_pulse c"
  "angle_to_pulse (c\<lparr>pwm := l\<rparr>) = angle_to_pulse c"
  by (simp_all add: angle_to_pulse_def fun_eq_iff Let_def)

lemma angle_to_pulse_fails_iff:
  "(\<exists>e. angle_to_pulse c angle motor = Inl e) =
     ((motor \<noteq> ''motor1'' \<and> motor \<noteq> ''motor2'')
      \<or> max_angle c = 0
      \<or> py_mod (angle - (if motor = ''motor1'' then motor1_angle_offset c
                           else motor2_angle_offset c)) 360 > max_angle c)"
  using py_mod_range[of "angle - motor1_angle_offset c"] py_mod_range[of "angle - motor2_angle_offset c"]
  by (auto simp: angle_to_pulse_def Let_def not_le)

lemma angle_to_pulse_ok:
  assumes "motor = ''motor1'' \<and> off = motor1_angle_offset c \<or> motor = ''motor2'' \<and> off = motor2_angle_offset c"
    and "max_angle c \<noteq> 0" "py_mod (angle - off) 360 \<le> max_angle c"
  shows "angle_to_pulse c angle motor =
     Inr (py_round (py_mod (angle - off) 360 / max_angle c * real_of_int (max_pulse c - min_pulse c)
            + real_of_int (min_pulse c)))"
  using assms py_mod_range[of "angle - off"]
  by (auto simp: angle_to_pulse_def Let_def)

lemma angle_to_pulse_mono:
  assumes m: "motor = ''motor1'' \<and> off = motor1_angle_offset c \<or> motor = ''motor2'' \<and> off = motor2_angle_offset c"
    and pos: "0 < max_angle c"
    and le: "py_mod (a - off) 360 \<le> py_mod (b - off) 360" and b: "py_mod (b - off) 360 \<le> max_angle c"
  shows "\<exists>p q. angle_to_pulse c a motor = Inr p \<and> angle_to_pulse c b motor = Inr q
     \<and> (if min_pulse c \<le> max_pulse c then p \<le> q else q \<le> p)"
proof -
  let ?A = "py_mod (a - off) 360" and ?B = "py_mod (b - off) 360"
  let ?f = "\<lambda>t. t / max_angle c * real_of_int (max_pulse c - min_pulse c) + real_of_int (min_pulse c)"
  have a: "?A \<le> max_angle c" using le b by simp
  have nz: "max_angle c \<noteq> 0" using pos by simp
  have pa: "angle_to_pulse c a motor = Inr (py_round (?f ?A))"
    by (rule angle_to_pulse_ok[OF m nz a])
  have pb: "angle_to_pulse c b motor = Inr (py_round (?f ?B))"
    by (rule angle_to_pulse_ok[OF m nz b])
  have q: "?A / max_angle c \<le> ?B / max_angle c" using le pos by (simp add: divide_right_mono)
  show ?thesis
  proof (cases "min_pulse c \<le> max_pulse c")
    case True
    then have "0 \<le> real_of_int (max_pulse c - min_pulse c)" by simp
    with q have "?A / max_angle c * real_of_int (max_pulse c - min_pulse c)
        \<le> ?B / max_angle c * real_of_int (max_pulse c - min_pulse c)"
      by (rule mult_right_mono)
    then have "?f ?A \<le> ?f ?B" by (rule add_right_mono)
    then show ?thesis using True pa pb by (simp add: py_round_mono)
  next
    case False
    then have "real_of_int (max_pulse c - min_pulse c) \<le> 0" by simp
    with q have "?B / max_angle c * real_of_int (max_pulse c - min_pulse c)
        \<le> ?A / max_angle c * real_of_int (max_pulse c - min_pulse c)"
      by (rule mult_right_mono_neg)
    then have "?f ?B \<le> ?f ?A" by (rule add_right_mono)
    then show ?thesis using False pa pb by (simp add: py_round_mono)
  qed
qed

lemma angle_to_pulse_endpoints:
  assumes m: "motor = ''motor1'' \<and> off = motor1_angle_offset c \<or> motor = ''motor2'' \<and> off = motor2_angle_offset c"
    and pos: "0 < max_angle c"
  shows "(py_mod (a - off) 360 = 0 \<longrightarrow> angle_to_pulse c a motor = Inr (min_pulse c))
    \<and> (py_mod (a - off) 360 = max_angle c \<longrightarrow> angle_to_pulse c a motor = Inr (max_pulse c))"
proof -
  have nz: "max_angle c \<noteq> 0" using pos by simp
  show ?thesis
  proof (intro conjI impI)
    assume z: "py_mod (a - off) 360 = 0"
    then have "py_mod (a - off) 360 \<le> max_angle c" using pos by simp
    from angle_to_pulse_ok[OF m nz this] show "angle_to_pulse c a motor = Inr (min_pulse c)"
      by (simp add: z)
  next
    assume z: "py_mod (a - off) 360 = max_angle c"
    then have "py_mod (a - off) 360 \<le> max_angle c" by simp
    from angle_to_pulse_ok[OF m nz this]
    have "angle_to_pulse c a motor = Inr (py_round (real_of_int (max_pulse c - min_pulse c) + real_of_int (min_pulse c)))"
      using nz by (simp add: z)
    also have "real_of_int (max_pulse c - min_pulse c) + real_of_int (min_pulse c) = real_of_int (max_pulse c)"
      by simp
    finally show "angle_to_pulse c a motor = Inr (max_pulse c)" by (simp only: py_round_of_int)
  qed
qed

subsection \<open>A single move\<close>

lemma calculate_angle_None [simp]: "calculate_angle p PyNone = None"
  by (simp add: calculate_angle_def split: pyval.splits)

lemma select_None [simp]: "select_intersection_point PyNone = PyNone"
  by (simp add: select_intersection_point_def)

lemma flat_move_negative: "ty < 0 \<Longrightarrow> flat_move c tx ty = (Inr None, c)"
  by (simp add: flat_move_def)

lemma flat_move_no_angle:
  "arm_angle c (x1 c) (y1 c) tx ty = None \<or> arm_angle c (x2 c) (y2 c) tx ty = None
     \<Longrightarrow> flat_move c tx ty = (Inr None, c)"
  by (auto simp: flat_move_def Let_def split: option.splits)

lemma flat_move_band:
  "arm_angle c (x1 c) (y1 c) tx ty = Some a1 \<Longrightarrow> arm_angle c (x2 c) (y2 c) tx ty = Some a2
     \<Longrightarrow> a1 < 45 \<or> a1 > 315 \<or> \<not> (a2 \<le> 135 \<or> a2 \<ge> 225)
     \<Longrightarrow> flat_move c tx ty = (Inr None, c)"
  by (auto simp: flat_move_def Let_def split: option.splits)

lemma flat_move_valid:
  assumes "0 \<le> ty" "arm_angle c (x1 c) (y1 c) tx ty = Some a1" "arm_angle c (x2 c) (y2 c) tx ty = Some a2"
    "45 \<le> a1" "a1 \<le> 315" "a2 \<le> 135 \<or> a2 \<ge> 225"
  shows "flat_move c tx ty =
    (let self1 = c\<lparr>x := tx, y := ty\<rparr>
     in case angle_to_pulse self1 a1 ''motor1'' of
          Inl e \<Rightarrow> (Inl e, self1)
        | Inr pulse1 \<Rightarrow>
            let self2 = self1\<lparr>pwm := setServoPulse (pwm self1) (motor1_channel self1) pulse1\<rparr>
            in (case angle_to_pulse self2 a2 ''motor2'' of
                  Inl e \<Rightarrow> (Inl e, self2)
                | Inr pulse2 \<Rightarrow>
                   (Inr (Some
                      [(''x1'', PyFloat (x1 c)), (''y1'', PyFloat (y1 c)), (''r1'', PyFloat (arm c)),
                       (''x2'', PyFloat (x2 c)), (''y2'', PyFloat (y2 c)), (''r2'', PyFloat (arm c)),
                       (''x3'', PyFloat tx), (''y3'', PyFloat ty), (''r3'', PyFloat (forearm c)),
                       (''intersection1'', arm_selected c (x1 c) (y1 c) tx ty),
                       (''intersection2'', arm_selected c (x2 c) (y2 c) tx ty),
                       (''angle1'', PyFloat a1), (''angle2'', PyFloat a2)]),
                    self2\<lparr>pwm := setServoPulse (pwm self2) (motor2_channel self2) pulse2\<rparr>)))"
proof -
  have n1: "arm_intersections c (x1 c) (y1 c) tx ty \<noteq> PyNone" "arm_selected c (x1 c) (y1 c) tx ty \<noteq> PyNone"
    using assms(2) by auto
  have n2: "arm_intersections c (x2 c) (y2 c) tx ty \<noteq> PyNone" "arm_selected c (x2 c) (y2 c) tx ty \<noteq> PyNone"
    using assms(3) by auto
  show ?thesis
    using assms n1 n2 by (auto simp: flat_move_def Let_def not_less split: sum.splits)
qed

lemma flat_move_cases:
  obtains (reject) "flat_move c tx ty = (Inr None, c)"
  | (valid) a1 a2 where "0 \<le> ty"
      "arm_angle c (x1 c) (y1 c) tx ty = Some a1" "arm_angle c (x2 c) (y2 c) tx ty = Some a2"
      "45 \<le> a1" "a1 \<le> 315" "a2 \<le> 135 \<or> a2 \<ge> 225"
proof (cases "ty < 0")
  case True
  then show ?thesis using reject flat_move_negative by blast
next
  case nonneg: False
  show ?thesis
  proof (cases "arm_angle c (x1 c) (y1 c) tx ty")
    case None
    then show ?thesis using reject flat_move_no_angle by blast
  next
    case s1: (Some a1)
    show ?thesis
    proof (cases "arm_angle c (x2 c) (y2 c) tx ty")
      case None
      then show ?thesis using reject flat_move_no_angle by blast
    next
      case s2: (Some a2)
      show ?thesis
      proof (cases "a1 < 45 \<or> a1 > 315 \<or> \<not> (a2 \<le> 135 \<or> a2 \<ge> 225)")
        case True
        from flat_move_band[OF s1 s2 True] show ?thesis by (rule reject)
      next
        case False
        then show ?thesis using nonneg s1 s2 by (intro valid[of a1 a2]) auto
      qed
    qed
  qed
qed

lemma flat_move_actuate:
  assumes "0 \<le> ty" "arm_angle c (x1 c) (y1 c) tx ty = Some a1" "arm_angle c (x2 c) (y2 c) tx ty = Some a2"
    "45 \<le> a1" "a1 \<le> 315" "a2 \<le> 135 \<or> a2 \<ge> 225"
  shows "flat_move c tx ty =
    (case angle_to_pulse c a1 ''motor1'' of
       Inl e \<Rightarrow> (Inl e, c\<lparr>x := tx, y := ty\<rparr>)
     | Inr pulse1 \<Rightarrow>
         (case angle_to_pulse c a2 ''motor2'' of
            Inl e \<Rightarrow> (Inl e, c\<lparr>x := tx, y := ty, pwm := pwm c @ [(motor1_channel c, pulse1)]\<rparr>)
          | Inr pulse2 \<Rightarrow>
              (Inr (Some
                 [(''x1'', PyFloat (x1 c)), (''y1'', PyFloat (y1 c)), (''r1'', PyFloat (arm c)),
                  (''x2'', PyFloat (x2 c)), (''y2'', PyFloat (y2 c)), (''r2'', PyFloat (arm c)),
                  (''x3'', PyFloat tx), (''y3'', PyFloat ty), (''r3'', PyFloat (forearm c)),
                  (''intersection1'', arm_selected c (x1 c) (y1 c) tx ty),
                  (''intersection2'', arm_selected c (x2 c) (y2 c) tx ty),
                  (''angle1'', PyFloat a1), (''angle2'', PyFloat a2)]),
               c\<lparr>x := tx, y := ty,
                  pwm := pwm c @ [(motor1_channel c, pulse1), (motor2_channel c, pulse2)]\<rparr>)))"
  unfolding flat_move_valid[OF assms]
  by (simp add: Let_def setServoPulse_def split: sum.splits)

lemma flat_move_None_unchanged:
  "fst (flat_move c tx ty) = Inr None \<Longrightarrow> snd (flat_move c tx ty) = c"
  using flat_move_cases[of c tx ty]
proof cases
  case reject
  then show ?thesis by simp
next
  case (valid a1 a2)
  assume "fst (flat_move c tx ty) = Inr None"
  then show ?thesis unfolding flat_move_actuate[OF valid]
    by (simp split: sum.splits)
qed

lemma flat_move_Some_D:
  assumes "fst (flat_move c tx ty) = Inr (Some d)"
  shows "\<exists>a1 a2. arm_angle c (x1 c) (y1 c) tx ty = Some a1 \<and> arm_angle c (x2 c) (y2 c) tx ty = Some a2
     \<and> map_of d ''angle1'' = Some (PyFloat a1) \<and> map_of d ''angle2'' = Some (PyFloat a2)
     \<and> 45 \<le> a1 \<and> a1 \<le> 315 \<and> \<not> (135 < a2 \<and> a2 < 225)
     \<and> x (snd (flat_move c tx ty)) = tx \<and> y (snd (flat_move c tx ty)) = ty"
  using flat_move_cases[of c tx ty]
proof cases
  case reject
  then show ?thesis using assms by simp
next
  case (valid a1 a2)
  show ?thesis using assms valid unfolding flat_move_actuate[OF valid]
    by (auto split: sum.splits)
qed

lemma flat_move_Inl_D:
  assumes "fst (flat_move c tx ty) = Inl e"
  shows "\<exists>a1 a2. arm_angle c (x1 c) (y1 c) tx ty = Some a1 \<and> arm_angle c (x2 c) (y2 c) tx ty = Some a2
     \<and> 45 \<le> a1 \<and> a1 \<le> 315 \<and> (a2 \<le> 135 \<or> a2 \<ge> 225)
     \<and> (angle_to_pulse c a1 ''motor1'' = Inl e \<and> snd (flat_move c tx ty) = c\<lparr>x := tx, y := ty\<rparr>
        \<or> (\<exists>pulse1. angle_to_pulse c a1 ''motor1'' = Inr pulse1 \<and> angle_to_pulse c a2 ''motor2'' = Inl e
             \<and> snd (flat_move c tx ty) = c\<lparr>x := tx, y := ty, pwm := pwm c @ [(motor1_channel c, pulse1)]\<rparr>))"
  using flat_move_cases[of c tx ty]
proof cases
  case reject
  then show ?thesis using assms by simp
next
  case (valid a1 a2)
  show ?thesis using assms valid unfolding flat_move_actuate[OF valid]
    by (auto split: sum.splits)
qed

lemma flat_move_fail_commits:
  assumes "0 \<le> ty" "arm_angle c (x1 c) (y1 c) tx ty = Some a1" "arm_angle c (x2 c) (y2 c) tx ty = Some a2"
    "45 \<le> a1" "a1 \<le> 315" "a2 \<le> 135 \<or> a2 \<ge> 225"
    and "(\<exists>e. angle_to_pulse c a1 ''motor1'' = Inl e) \<or> (\<exists>e. angle_to_pulse c a2 ''motor2'' = Inl e)"
  shows "(\<exists>e. fst (flat_move c tx ty) = Inl e) \<and> x (snd (flat_move c tx ty)) = tx
     \<and> y (snd (flat_move c tx ty)) = ty"
  using assms(7) unfolding flat_move_actuate[OF assms(1-6)]
  by (auto split: sum.splits)

subsection \<open>Concrete controllers\<close>

text \<open>
  A controller with engine spacing 300, upper arm 50 and forearm 250 (the other
  parameters as the defaults of the source) reaches the target (0, 100) with the joint
  angles 180 and 270 degrees.
\<close>

lemma ex_arm1: "find_circle_intersections [- 150, - 50] 50 [0, 100] 250 = NdArray [2, 2] [- 200, - 50, - 150, - 100]"
  using fci_eval[of 45000 0 "- 150" 100 "- 50" "- 15000" 50 250 15000]
  by simp

lemma ex_arm2: "find_circle_intersections [150, - 50] 50 [0, 100] 250 = NdArray [2, 2] [150, - 100, 200, - 50]"
  using fci_eval[of 45000 0 150 100 "- 50" "- 15000" 50 250 15000]
  by simp

lemma ex_angle1: "calculate_angle (NdArray [2] [- 150, - 50]) (select_intersection_point (NdArray [2, 2] [- 200, - 50, - 150, - 100])) = Some 180"
  by (simp add: select_pair calculate_angle_pair arctan2_def degrees_def)

lemma ex_angle2: "calculate_angle (NdArray [2] [150, - 50]) (select_intersection_point (NdArray [2, 2] [150, - 100, 200, - 50])) = Some 270"
  by (simp add: select_pair calculate_angle_pair arctan2_def degrees_def)

lemma init_tcp:
  "x (init l u v s a f ma mn mx o1 o2) = u" "y (init l u v s a f ma mn mx o1 o2) = v"
  "pwm (init l u v s a f ma mn mx o1 o2) = l"
  by (simp_all add: init_def)

lemma ex_angles:
  "arm_angle (init l u v 300 50 250 ma mn mx o1 o2) (- 150) (- 50) 0 100 = Some 180"
  "arm_angle (init l u v 300 50 250 ma mn mx o1 o2) 150 (- 50) 0 100 = Some 270"
  by (simp_all add: init_def ex_arm1 ex_arm2 ex_angle1 ex_angle2)

lemma ex_pivots:
  "x1 (init l u v 300 a f ma mn mx o1 o2) = - 150" "y1 (init l u v 300 a f ma mn mx o1 o2) = - 50"
  "x2 (init l u v 300 a f ma mn mx o1 o2) = 150" "y2 (init l u v 300 a f ma mn mx o1 o2) = - 50"
  by (simp_all add: init_def)

text \<open>With the default calibration the move succeeds and commands the pulses 1752 and 2171.\<close>

lemma ex_move:
  "flat_move (init l u v 300 50 250 270 2590 570 68 214) 0 100 =
    (Inr (Some [(''x1'', PyFloat (- 150)), (''y1'', PyFloat (- 50)), (''r1'', PyFloat 50),
                (''x2'', PyFloat 150), (''y2'', PyFloat (- 50)), (''r2'', PyFloat 50),
                (''x3'', PyFloat 0), (''y3'', PyFloat 100), (''r3'', PyFloat 250),
                (''intersection1'', NdArray [2] [- 200, - 50]),
                (''intersection2'', NdArray [2] [150, - 100]),
                (''angle1'', PyFloat 180), (''angle2'', PyFloat 270)]),
     init (l @ [(0, 1752), (1, 2171)]) 0 100 300 50 250 270 2590 570 68 214)"
proof -
  let ?c = "init l u v 300 50 250 270 2590 570 68 214"
  have a1: "arm_angle ?c (x1 ?c) (y1 ?c) 0 100 = Some 180"
    unfolding ex_pivots by (rule ex_angles)
  have a2: "arm_angle ?c (x2 ?c) (y2 ?c) 0 100 = Some 270"
    unfolding ex_pivots by (rule ex_angles)
  have m1: "py_mod 112 360 = 112" by (simp add: py_mod_id)
  have m2: "py_mod 56 360 = 56" by (simp add: py_mod_id)
  have p1: "angle_to_pulse ?c 180 ''motor1'' = Inr 1752"
    by (simp add: init_def angle_to_pulse_def Let_def m1 py_round_def)
  have p2: "angle_to_pulse ?c 270 ''motor2'' = Inr 2171"
    by (simp add: init_def angle_to_pulse_def Let_def m2 py_round_def)
  have sel: "arm_selected ?c (- 150) (- 50) 0 100 = NdArray [2] [- 200, - 50]"
      "arm_selected ?c 150 (- 50) 0 100 = NdArray [2] [150, - 100]"
    by (simp_all add: init_def ex_arm1 ex_arm2 select_pair)
  show ?thesis
    unfolding flat_move_actuate[of 100 ?c 0 180 270, OF _ a1 a2, simplified] p1 p2
    unfolding ex_pivots sel
    by (simp add: init_def)
qed

text \<open>With the offset 300 for motor 2 the mapping of the second angle fails after the first command.\<close>

lemma ex_move_fail2:
  "flat_move (init l u v 300 50 250 270 2590 570 68 300) 0 100 =
    (Inl ValueError, init (l @ [(0, 1752)]) 0 100 300 50 250 270 2590 570 68 300)"
proof -
  let ?c = "init l u v 300 50 250 270 2590 570 68 300"
  have a1: "arm_angle ?c (x1 ?c) (y1 ?c) 0 100 = Some 180"
    unfolding ex_pivots by (rule ex_angles)
  have a2: "arm_angle ?c (x2 ?c) (y2 ?c) 0 100 = Some 270"
    unfolding ex_pivots by (rule ex_angles)
  have m1: "py_mod 112 360 = 112" by (simp add: py_mod_id)
  have m2: "py_mod (- 30) 360 = 330" using py_mod_shift[of "- 30"] by simp
  have p1: "angle_to_pulse ?c 180 ''motor1'' = Inr 1752"
    by (simp add: init_def angle_to_pulse_def Let_def m1 py_round_def)
  have p2: "angle_to_pulse ?c 270 ''motor2'' = Inl ValueError"
    by (simp add: init_def angle_to_pulse_def Let_def m2)
  show ?thesis
    unfolding flat_move_actuate[of 100 ?c 0 180 270, OF _ a1 a2, simplified] p1 p2
    by (simp add: init_def)
qed

text \<open>
  A controller with engine spacing 150, upper arm 100 and forearm 125 computes the joint
  angles 180 and 180 degrees for the target (-100, 50).
\<close>

lemma rej_arm1: "find_circle_intersections [- 75, - 50] 100 [- 100, 50] 125 =
    NdArray [2, 2] [- 175, - 50, 225 / 17, - 50 / 17]"
  using fci_eval[of 10625 "- 100" "- 75" 50 "- 50" 5000 100 125 20000]
  by simp

lemma rej_arm2: "find_circle_intersections [75, - 50] 100 [- 100, 50] 125 =
    NdArray [2, 2] [- 25, - 50, 315 / 13, 470 / 13]"
  using fci_eval[of 40625 "- 100" 75 50 "- 50" 35000 100 125 20000]
  by simp

lemma rej_angles:
  "arm_angle (init l u v 150 100 125 ma mn mx o1 o2) (- 75) (- 50) (- 100) 50 = Some 180"
  "arm_angle (init l u v 150 100 125 ma mn mx o1 o2) 75 (- 50) (- 100) 50 = Some 180"
  by (simp_all add: init_def rej_arm1 rej_arm2 select_pair calculate_angle_pair arctan2_def degrees_def)

text \<open>
  The controller with all the default parameters of the source rejects its own home
  position (0, 100): the joint angle of arm 2 there lies between 180 and 225 degrees.
\<close>

lemma default_home_arm2:
  "\<exists>a. arm_angle (init [] 0 100 160 180 260 270 2590 570 68 214) 80 (- 50) 0 100 = Some a \<and> 180 < a \<and> a < 225"
proof -
  define w :: real where "w = sqrt 3705750000"
  have w0: "0 \<le> w" by (simp add: w_def)
  have w2: "w\<^sup>2 = 3705750000" by (simp add: w_def)
  have "sqrt (20700\<^sup>2) < sqrt 3705750000" by (simp only: real_sqrt_less_iff) simp
  then have wl: "20700 < w" by (simp add: w_def)
  have f: "find_circle_intersections [80, - 50] 180 [0, 100] 260 =
      NdArray [2, 2]
        [80 + (- 6300) * (0 - 80) / (2 * 28900) - w * (100 - (- 50)) / (2 * 28900),
         - 50 + (- 6300) * (100 - (- 50)) / (2 * 28900) + w * (0 - 80) / (2 * 28900),
         80 + (- 6300) * (0 - 80) / (2 * 28900) + w * (100 - (- 50)) / (2 * 28900),
         - 50 + (- 6300) * (100 - (- 50)) / (2 * 28900) - w * (0 - 80) / (2 * 28900)]"
    by (rule fci_eval[of 28900 0 80 100 "- 50" "- 6300" 180 260 w]) (simp_all add: w0 w2)
  have s: "select_intersection_point (find_circle_intersections [80, - 50] 180 [0, 100] 260) =
      NdArray [2] [80 + (- 6300) * (0 - 80) / (2 * 28900) - w * (100 - (- 50)) / (2 * 28900),
         - 50 + (- 6300) * (100 - (- 50)) / (2 * 28900) + w * (0 - 80) / (2 * 28900)]"
    unfolding f select_pair using wl by simp
  have "\<exists>a. calculate_angle (NdArray [2] [80, - 50])
      (NdArray [2] [80 + (- 6300) * (0 - 80) / (2 * 28900) - w * (100 - (- 50)) / (2 * 28900),
         - 50 + (- 6300) * (100 - (- 50)) / (2 * 28900) + w * (0 - 80) / (2 * 28900)]) = Some a \<and> 180 < a \<and> a < 225"
    by (rule calculate_angle_third_quadrant) (use wl in simp_all)
  then show ?thesis by (simp add: init_def s)
qed

lemma default_home_rejected:
  "flat_move (init [] 0 100 160 180 260 270 2590 570 68 214) 0 100 = (Inr None, init [] 0 100 160 180 260 270 2590 570 68 214)"
proof -
  let ?c = "init [] 0 100 160 180 260 270 2590 570 68 214"
  have xy: "x2 ?c = 80" "y2 ?c = - 50" by (simp_all add: init_def)
  from default_home_arm2 obtain a2 where a2: "arm_angle ?c (x2 ?c) (y2 ?c) 0 100 = Some a2" "180 < a2" "a2 < 225"
    unfolding xy by blast
  show ?thesis
  proof (cases "arm_angle ?c (x1 ?c) (y1 ?c) 0 100")
    case None
    then show ?thesis by (intro flat_move_no_angle) simp
  next
    case (Some a1)
    show ?thesis by (rule flat_move_band[OF Some a2(1)]) (use a2 in simp)
  qed
qed

subsection \<open>Interpolated moves\<close>

lemma linspace_one: "linspace a b 1 = Inr [a]"
  by (simp add: linspace_def)

lemma linspace_first:
  assumes "1 \<le> n"
  shows "\<exists>rest. linspace a b n = Inr (a # rest) \<and> length rest = nat n - 1"
proof (cases "n = 1")
  case True
  then show ?thesis by (simp add: linspace_def)
next
  case False
  with assms have n: "2 \<le> n" by simp
  then have "[0 ..< nat n - 1] = 0 # [1 ..< nat n - 1]"
    by (simp add: upt_conv_Cons)
  then show ?thesis using n by (simp add: linspace_def)
qed

lemma linspace_length: "0 \<le> n \<Longrightarrow> \<exists>xs. linspace a b n = Inr xs \<and> length xs = nat n"
  by (auto simp: linspace_def)

lemma linspace_nth:
  assumes "2 \<le> n" "linspace a b n = Inr xs" "i < nat n"
  shows "xs ! i = a + real i * ((b - a) / real_of_int (n - 1))"
proof (cases "i < nat n - 1")
  case True
  then show ?thesis using assms by (auto simp: linspace_def nth_append)
next
  case False
  with assms have i: "i = nat n - 1" by simp
  have "real (nat n - 1) = real_of_int (n - 1)" using assms(1) by simp
  then have "a + real i * ((b - a) / real_of_int (n - 1)) = b"
    using assms(1) by (simp add: i)
  then show ?thesis using assms by (auto simp: linspace_def nth_append i)
qed

lemma linspace_last:
  assumes "2 \<le> n" "linspace a b n = Inr xs"
  shows "last xs = b"
  using assms by (auto simp: linspace_def)

lemma interpolated_first:
  assumes "1 \<le> steps"
  shows "\<exists>xs ys. linspace (x c) tx steps = Inr (x c # xs) \<and> linspace (y c) ty steps = Inr (y c # ys)
     \<and> interpolated_flat_move c tx ty steps delay = run_waypoints c delay ((x c, y c) # zip xs ys)"
proof -
  from linspace_first[OF assms, of "x c" tx] obtain xs where xs: "linspace (x c) tx steps = Inr (x c # xs)" by blast
  from linspace_first[OF assms, of "y c" ty] obtain ys where ys: "linspace (y c) ty steps = Inr (y c # ys)" by blast
  show ?thesis using xs ys by (simp add: interpolated_flat_move_def)
qed

lemma interpolated_one:
  "interpolated_flat_move c tx ty 1 delay = run_waypoints c delay [(x c, y c)]"
  by (simp add: interpolated_flat_move_def linspace_one)

lemma run_single:
  "run_waypoints c delay [(u, v)] =
     (case flat_move c u v of
        (Inl e, c') \<Rightarrow> (Inl e, c')
      | (Inr None, c') \<Rightarrow> (Inr False, c')
      | (Inr (Some d), c') \<Rightarrow> if delay < 0 then (Inl ValueError, c') else (Inr True, c'))"
  by (simp split: prod.splits sum.splits option.splits)

lemma interpolated_one_state:
  "snd (interpolated_flat_move c tx ty 1 delay) = snd (flat_move c (x c) (y c))"
  by (simp add: interpolated_one split: prod.splits sum.splits option.splits)

lemma interpolated_one_success:
  "(fst (interpolated_flat_move c tx ty 1 delay) = Inr True)
     = (0 \<le> delay \<and> (\<exists>d. fst (flat_move c (x c) (y c)) = Inr (Some d)))"
  by (auto simp add: interpolated_one split: prod.splits sum.splits option.splits)

lemma run_waypoints_all_succeed:
  assumes "0 \<le> delay"
  shows "fst (run_waypoints c delay ws) = Inr True \<Longrightarrow> ws \<noteq> [] \<Longrightarrow>
     x (snd (run_waypoints c delay ws)) = fst (last ws) \<and> y (snd (run_waypoints c delay ws)) = snd (last ws)"
proof (induction ws arbitrary: c)
  case Nil
  then show ?case by simp
next
  case (Cons w ws)
  obtain r c' where fm: "flat_move c (fst w) (snd w) = (r, c')" by (cases "flat_move c (fst w) (snd w)")
  from Cons.prems(1) fm assms obtain d where r: "r = Inr (Some d)"
    by (auto split: sum.splits option.splits if_splits)
  have run: "run_waypoints c delay (w # ws) = run_waypoints c' delay ws"
    using fm r assms by simp
  show ?case
  proof (cases "ws = []")
    case True
    from flat_move_Some_D[of c "fst w" "snd w" d] fm r
    have "x c' = fst w \<and> y c' = snd w" by auto
    then show ?thesis using True run by simp
  next
    case False
    then show ?thesis using Cons.IH[of c'] Cons.prems(1) run by simp
  qed
qed

text \<open>The loop stops at the first waypoint whose move returns \<^verbatim>\<open>None\<close>, in the state that the moves before it left.\<close>

lemma run_waypoints_stop:
  assumes "fst (run_waypoints c delay ws) = Inr True"
    and "fst (flat_move (snd (run_waypoints c delay ws)) (fst w) (snd w)) = Inr None"
  shows "run_waypoints c delay (ws @ w # rest) = (Inr False, snd (run_waypoints c delay ws))"
  using assms
proof (induction ws arbitrary: c)
  case Nil
  obtain r c' where fm: "flat_move c (fst w) (snd w) = (r, c')" by (cases "flat_move c (fst w) (snd w)")
  from Nil fm have r: "r = Inr None" by simp
  from flat_move_None_unchanged[of c "fst w" "snd w"] fm r have "c' = c" by simp
  then show ?case using fm r by simp
next
  case (Cons v vs)
  obtain r c' where fm: "flat_move c (fst v) (snd v) = (r, c')" by (cases "flat_move c (fst v) (snd v)")
  from Cons.prems(1) fm obtain d where r: "r = Inr (Some d)" and dl: "\<not> delay < 0"
    by (auto split: sum.splits option.splits if_splits)
  have run: "run_waypoints c delay (v # vs) = run_waypoints c' delay vs"
    using fm r dl by simp
  have run': "run_waypoints c delay ((v # vs) @ w # rest) = run_waypoints c' delay (vs @ w # rest)"
    using fm r dl by simp
  show ?case unfolding run run'
    using Cons.IH[of c'] Cons.prems unfolding run by simp
qed

section \<open>The claims about the controller\<close>

text \<open>
  C2. Whenever a validation stage of \<open>flat_move\<close> rejects the target (\<open>y < 0\<close>, no
  intersection pair for an arm, no selected point, no angle, or an angle outside the
  workspace bands), the method returns \<^verbatim>\<open>None\<close> and raises nothing, and the controller
  is unchanged: the TCP keeps its value and no servo command is added. Conversely every
  call that returns \<^verbatim>\<open>None\<close> leaves the controller unchanged.
\<close>

theorem flat_move_reject_no_effect:
  "(ty < 0
     \<or> arm_intersections c (x1 c) (y1 c) tx ty = PyNone
     \<or> arm_intersections c (x2 c) (y2 c) tx ty = PyNone
     \<or> arm_selected c (x1 c) (y1 c) tx ty = PyNone
     \<or> arm_selected c (x2 c) (y2 c) tx ty = PyNone
     \<or> arm_angle c (x1 c) (y1 c) tx ty = None
     \<or> arm_angle c (x2 c) (y2 c) tx ty = None
     \<or> (\<exists>a1. arm_angle c (x1 c) (y1 c) tx ty = Some a1 \<and> (a1 < 45 \<or> a1 > 315))
     \<or> (\<exists>a2. arm_angle c (x2 c) (y2 c) tx ty = Some a2 \<and> \<not> (a2 \<le> 135 \<or> a2 \<ge> 225))
    \<longrightarrow> flat_move c tx ty = (Inr None, c))
   \<and> (fst (flat_move c tx ty) = Inr None \<longrightarrow> snd (flat_move c tx ty) = c)"
proof (intro conjI impI)
  assume r: "ty < 0
     \<or> arm_intersections c (x1 c) (y1 c) tx ty = PyNone
     \<or> arm_intersections c (x2 c) (y2 c) tx ty = PyNone
     \<or> arm_selected c (x1 c) (y1 c) tx ty = PyNone
     \<or> arm_selected c (x2 c) (y2 c) tx ty = PyNone
     \<or> arm_angle c (x1 c) (y1 c) tx ty = None
     \<or> arm_angle c (x2 c) (y2 c) tx ty = None
     \<or> (\<exists>a1. arm_angle c (x1 c) (y1 c) tx ty = Some a1 \<and> (a1 < 45 \<or> a1 > 315))
     \<or> (\<exists>a2. arm_angle c (x2 c) (y2 c) tx ty = Some a2 \<and> \<not> (a2 \<le> 135 \<or> a2 \<ge> 225))"
  from flat_move_cases[of c tx ty] show "flat_move c tx ty = (Inr None, c)"
  proof cases
    case reject
    then show ?thesis .
  next
    case (valid a1 a2)
    with r have False by auto
    then show ?thesis ..
  qed
next
  assume "fst (flat_move c tx ty) = Inr None"
  then show "snd (flat_move c tx ty) = c" by (rule flat_move_None_unchanged)
qed

text \<open>The theorem at a target with \<open>y = -1\<close>, and at a target whose angle for arm 2 is 180 degrees.\<close>

theorem flat_move_reject_no_effect_witness:
  "(- 1 :: real) < 0
   \<and> flat_move (init [(2, 1500)] 0 100 160 180 260 270 2590 570 68 214) 5 (- 1)
       = (Inr None, init [(2, 1500)] 0 100 160 180 260 270 2590 570 68 214)
   \<and> arm_angle (init [(2, 1500)] 0 100 150 100 125 270 2590 570 68 214) 75 (- 50) (- 100) 50 = Some 180
   \<and> \<not> ((180 :: real) \<le> 135 \<or> (180 :: real) \<ge> 225)
   \<and> flat_move (init [(2, 1500)] 0 100 150 100 125 270 2590 570 68 214) (- 100) 50
       = (Inr None, init [(2, 1500)] 0 100 150 100 125 270 2590 570 68 214)"
proof -
  let ?c = "init [(2, 1500)] 0 100 150 100 125 270 2590 570 68 214"
  have p: "x2 ?c = 75" "y2 ?c = - 50" by (simp_all add: init_def)
  have a: "arm_angle ?c (x2 ?c) (y2 ?c) (- 100) 50 = Some 180"
    unfolding p by (rule rej_angles)
  show ?thesis
    using flat_move_reject_no_effect[of "- 1" "init [(2, 1500)] 0 100 160 180 260 270 2590 570 68 214" 5]
      flat_move_reject_no_effect[of 50 ?c "- 100"] a
    by (simp add: p)
qed

text \<open>
  C3 (as amended). \<open>flat_move\<close> sets the TCP to the target before it maps the angles
  to pulses: whenever validation succeeds and \<open>angle_to_pulse\<close> fails for a motor, the
  call ends with that exception and the TCP is the target; and every call that ends
  with an exception has passed validation, has failed in \<open>angle_to_pulse\<close> and has the
  TCP at the target. \<open>angle_to_pulse\<close> raises exactly when the motor identifier is
  neither \<^verbatim>\<open>motor1\<close> nor \<^verbatim>\<open>motor2\<close>, or the adjusted angle is outside \<open>[0, max_angle]\<close>, or
  \<open>max_angle\<close> is zero.
\<close>

theorem flat_move_commits_before_mapping:
  "(0 \<le> ty \<and> arm_angle c (x1 c) (y1 c) tx ty = Some a1 \<and> arm_angle c (x2 c) (y2 c) tx ty = Some a2
      \<and> 45 \<le> a1 \<and> a1 \<le> 315 \<and> (a2 \<le> 135 \<or> a2 \<ge> 225)
      \<and> ((\<exists>e. angle_to_pulse c a1 ''motor1'' = Inl e) \<or> (\<exists>e. angle_to_pulse c a2 ''motor2'' = Inl e))
    \<longrightarrow> (\<exists>e. fst (flat_move c tx ty) = Inl e)
        \<and> x (snd (flat_move c tx ty)) = tx \<and> y (snd (flat_move c tx ty)) = ty)
   \<and> (fst (flat_move c tx ty) = Inl err
    \<longrightarrow> x (snd (flat_move c tx ty)) = tx \<and> y (snd (flat_move c tx ty)) = ty
        \<and> (\<exists>b1 b2. arm_angle c (x1 c) (y1 c) tx ty = Some b1 \<and> arm_angle c (x2 c) (y2 c) tx ty = Some b2
              \<and> 45 \<le> b1 \<and> b1 \<le> 315 \<and> (b2 \<le> 135 \<or> b2 \<ge> 225)
              \<and> (angle_to_pulse c b1 ''motor1'' = Inl err \<or> angle_to_pulse c b2 ''motor2'' = Inl err)))
   \<and> ((\<exists>e. angle_to_pulse c angle motor = Inl e)
        = ((motor \<noteq> ''motor1'' \<and> motor \<noteq> ''motor2'')
           \<or> max_angle c = 0
           \<or> \<not> (0 \<le> py_mod (angle - (if motor = ''motor1'' then motor1_angle_offset c
                                          else motor2_angle_offset c)) 360
                \<and> py_mod (angle - (if motor = ''motor1'' then motor1_angle_offset c
                                     else motor2_angle_offset c)) 360 \<le> max_angle c)))"
proof (intro conjI impI)
  assume h: "0 \<le> ty \<and> arm_angle c (x1 c) (y1 c) tx ty = Some a1 \<and> arm_angle c (x2 c) (y2 c) tx ty = Some a2
      \<and> 45 \<le> a1 \<and> a1 \<le> 315 \<and> (a2 \<le> 135 \<or> a2 \<ge> 225)
      \<and> ((\<exists>e. angle_to_pulse c a1 ''motor1'' = Inl e) \<or> (\<exists>e. angle_to_pulse c a2 ''motor2'' = Inl e))"
  then have "(\<exists>e. fst (flat_move c tx ty) = Inl e) \<and> x (snd (flat_move c tx ty)) = tx
     \<and> y (snd (flat_move c tx ty)) = ty"
    by (intro flat_move_fail_commits[of ty c tx a1 a2]) simp_all
  then show "\<exists>e. fst (flat_move c tx ty) = Inl e" "x (snd (flat_move c tx ty)) = tx"
    "y (snd (flat_move c tx ty)) = ty" by simp_all
next
  assume e: "fst (flat_move c tx ty) = Inl err"
  from flat_move_Inl_D[OF e]
  show "x (snd (flat_move c tx ty)) = tx" "y (snd (flat_move c tx ty)) = ty"
    "\<exists>b1 b2. arm_angle c (x1 c) (y1 c) tx ty = Some b1 \<and> arm_angle c (x2 c) (y2 c) tx ty = Some b2
              \<and> 45 \<le> b1 \<and> b1 \<le> 315 \<and> (b2 \<le> 135 \<or> b2 \<ge> 225)
              \<and> (angle_to_pulse c b1 ''motor1'' = Inl err \<or> angle_to_pulse c b2 ''motor2'' = Inl err)"
    by auto
next
  show "(\<exists>e. angle_to_pulse c angle motor = Inl e)
        = ((motor \<noteq> ''motor1'' \<and> motor \<noteq> ''motor2'')
           \<or> max_angle c = 0
           \<or> \<not> (0 \<le> py_mod (angle - (if motor = ''motor1'' then motor1_angle_offset c
                                          else motor2_angle_offset c)) 360
                \<and> py_mod (angle - (if motor = ''motor1'' then motor1_angle_offset c
                                     else motor2_angle_offset c)) 360 \<le> max_angle c))"
    unfolding angle_to_pulse_fails_iff
    using py_mod_range[of "angle - (if motor = ''motor1'' then motor1_angle_offset c
                                          else motor2_angle_offset c)"]
    by (simp add: not_le)
qed

text \<open>The theorem at a controller whose second motor cannot reach 270 degrees: the TCP is the target and one command was sent.\<close>

theorem flat_move_commits_before_mapping_witness:
  "fst (flat_move (init [] 10 20 300 50 250 270 2590 570 68 300) 0 100) = Inl ValueError
   \<and> x (snd (flat_move (init [] 10 20 300 50 250 270 2590 570 68 300) 0 100)) = 0
   \<and> y (snd (flat_move (init [] 10 20 300 50 250 270 2590 570 68 300) 0 100)) = 100
   \<and> pwm (snd (flat_move (init [] 10 20 300 50 250 270 2590 570 68 300) 0 100)) = [(0, 1752)]"
  using flat_move_commits_before_mapping[of 100 "init [] 10 20 300 50 250 270 2590 570 68 300" 0 _ _ ValueError]
    ex_move_fail2[of "[]" 10 20]
  by (simp add: init_def)

text \<open>
  The claim C3 as it was stated lists only the range test and the motor identifier.
  With \<open>max_angle = 0\<close> the adjusted angle 0 of motor 1 is inside \<open>[0, max_angle]\<close>, and
  \<open>angle_to_pulse\<close> raises ZeroDivisionError.
\<close>

theorem angle_to_pulse_zero_span:
  "0 \<le> py_mod (68 - motor1_angle_offset (init [] 0 100 160 180 260 0 2590 570 68 214)) 360
   \<and> py_mod (68 - motor1_angle_offset (init [] 0 100 160 180 260 0 2590 570 68 214)) 360
       \<le> max_angle (init [] 0 100 160 180 260 0 2590 570 68 214)
   \<and> angle_to_pulse (init [] 0 100 160 180 260 0 2590 570 68 214) 68 ''motor1'' = Inl ZeroDivisionError"
  by (simp add: init_def angle_to_pulse_def py_mod_def)

text \<open>
  C4. \<open>flat_move\<close> returns its dictionary only when the angle of arm 1 lies in
  [45, 315] and the angle of arm 2 is not strictly inside (135, 225); whenever the two
  computed angles violate a band the move is rejected.
\<close>

theorem flat_move_workspace_bands:
  "(fst (flat_move c tx ty) = Inr (Some d)
    \<longrightarrow> (\<exists>a1 a2. arm_angle c (x1 c) (y1 c) tx ty = Some a1 \<and> arm_angle c (x2 c) (y2 c) tx ty = Some a2
           \<and> map_of d ''angle1'' = Some (PyFloat a1) \<and> map_of d ''angle2'' = Some (PyFloat a2)
           \<and> 45 \<le> a1 \<and> a1 \<le> 315 \<and> \<not> (135 < a2 \<and> a2 < 225)))
   \<and> (arm_angle c (x1 c) (y1 c) tx ty = Some b1 \<and> arm_angle c (x2 c) (y2 c) tx ty = Some b2
       \<and> (b1 < 45 \<or> 315 < b1 \<or> (135 < b2 \<and> b2 < 225))
    \<longrightarrow> flat_move c tx ty = (Inr None, c))"
proof (intro conjI impI)
  assume "fst (flat_move c tx ty) = Inr (Some d)"
  from flat_move_Some_D[OF this]
  show "\<exists>a1 a2. arm_angle c (x1 c) (y1 c) tx ty = Some a1 \<and> arm_angle c (x2 c) (y2 c) tx ty = Some a2
           \<and> map_of d ''angle1'' = Some (PyFloat a1) \<and> map_of d ''angle2'' = Some (PyFloat a2)
           \<and> 45 \<le> a1 \<and> a1 \<le> 315 \<and> \<not> (135 < a2 \<and> a2 < 225)"
    by blast
next
  assume h: "arm_angle c (x1 c) (y1 c) tx ty = Some b1 \<and> arm_angle c (x2 c) (y2 c) tx ty = Some b2
       \<and> (b1 < 45 \<or> 315 < b1 \<or> (135 < b2 \<and> b2 < 225))"
  then have "b1 < 45 \<or> b1 > 315 \<or> \<not> (b2 \<le> 135 \<or> b2 \<ge> 225)" by auto
  with h show "flat_move c tx ty = (Inr None, c)"
    by (intro flat_move_band[of c tx ty b1 b2]) simp_all
qed

text \<open>The theorem at a move that succeeds with the angles 180 and 270, and at a target with the angles 180 and 180.\<close>

theorem flat_move_workspace_bands_witness:
  "fst (flat_move (init [] 10 20 300 50 250 270 2590 570 68 214) 0 100)
     = Inr (Some [(''x1'', PyFloat (- 150)), (''y1'', PyFloat (- 50)), (''r1'', PyFloat 50),
                (''x2'', PyFloat 150), (''y2'', PyFloat (- 50)), (''r2'', PyFloat 50),
                (''x3'', PyFloat 0), (''y3'', PyFloat 100), (''r3'', PyFloat 250),
                (''intersection1'', NdArray [2] [- 200, - 50]),
                (''intersection2'', NdArray [2] [150, - 100]),
                (''angle1'', PyFloat 180), (''angle2'', PyFloat 270)])
   \<and> arm_angle (init [] 10 20 300 50 250 270 2590 570 68 214) (- 150) (- 50) 0 100 = Some 180
   \<and> arm_angle (init [] 10 20 300 50 250 270 2590 570 68 214) 150 (- 50) 0 100 = Some 270
   \<and> arm_angle (init [] 10 20 150 100 125 270 2590 570 68 214) (- 75) (- 50) (- 100) 50 = Some 180
   \<and> arm_angle (init [] 10 20 150 100 125 270 2590 570 68 214) 75 (- 50) (- 100) 50 = Some 180
   \<and> (135 :: real) < 180 \<and> (180 :: real) < 225
   \<and> flat_move (init [] 10 20 150 100 125 270 2590 570 68 214) (- 100) 50
       = (Inr None, init [] 10 20 150 100 125 270 2590 570 68 214)"
proof -
  let ?r = "init [] 10 20 150 100 125 270 2590 570 68 214"
  have p: "x1 ?r = - 75" "y1 ?r = - 50" "x2 ?r = 75" "y2 ?r = - 50" by (simp_all add: init_def)
  have a: "arm_angle ?r (x1 ?r) (y1 ?r) (- 100) 50 = Some 180"
      "arm_angle ?r (x2 ?r) (y2 ?r) (- 100) 50 = Some 180"
    unfolding p by (rule rej_angles)+
  show ?thesis
    using flat_move_workspace_bands[of ?r "- 100" 50 _ 180 180] a
      ex_move[of "[]" 10 20] ex_angles[of "[]" 10 20 270 2590 570 68 214]
    by (simp add: p)
qed

text \<open>
  C8 (as amended). For a positive \<open>max_angle\<close> and either motor, \<open>angle_to_pulse\<close> is
  monotonic in the adjusted angle over \<open>[0, max_angle]\<close> (non-decreasing when
  \<open>min_pulse \<le> max_pulse\<close>, non-increasing when \<open>min_pulse > max_pulse\<close>, which is a valid
  calibration), the adjusted angle 0 maps to \<open>min_pulse\<close> and the adjusted angle
  \<open>max_angle\<close> maps to \<open>max_pulse\<close>.
\<close>

theorem angle_to_pulse_monotone_exact:
  assumes "motor = ''motor1'' \<and> off = motor1_angle_offset c
         \<or> motor = ''motor2'' \<and> off = motor2_angle_offset c"
    and "0 < max_angle c"
  shows "(py_mod (a - off) 360 \<le> py_mod (b - off) 360 \<and> py_mod (b - off) 360 \<le> max_angle c
      \<longrightarrow> (\<exists>p q. angle_to_pulse c a motor = Inr p \<and> angle_to_pulse c b motor = Inr q
             \<and> (min_pulse c \<le> max_pulse c \<longrightarrow> p \<le> q)
             \<and> (min_pulse c > max_pulse c \<longrightarrow> q \<le> p)))
    \<and> (py_mod (a - off) 360 = 0 \<longrightarrow> angle_to_pulse c a motor = Inr (min_pulse c))
    \<and> (py_mod (a - off) 360 = max_angle c \<longrightarrow> angle_to_pulse c a motor = Inr (max_pulse c))"
proof (intro conjI impI)
  assume "py_mod (a - off) 360 \<le> py_mod (b - off) 360 \<and> py_mod (b - off) 360 \<le> max_angle c"
  then have "\<exists>p q. angle_to_pulse c a motor = Inr p \<and> angle_to_pulse c b motor = Inr q
     \<and> (if min_pulse c \<le> max_pulse c then p \<le> q else q \<le> p)"
    by (intro angle_to_pulse_mono[OF assms]) simp_all
  then show "\<exists>p q. angle_to_pulse c a motor = Inr p \<and> angle_to_pulse c b motor = Inr q
             \<and> (min_pulse c \<le> max_pulse c \<longrightarrow> p \<le> q)
             \<and> (min_pulse c > max_pulse c \<longrightarrow> q \<le> p)"
    by (auto split: if_splits)
next
  assume "py_mod (a - off) 360 = 0"
  then show "angle_to_pulse c a motor = Inr (min_pulse c)"
    using angle_to_pulse_endpoints[OF assms, of a] by simp
next
  assume "py_mod (a - off) 360 = max_angle c"
  then show "angle_to_pulse c a motor = Inr (max_pulse c)"
    using angle_to_pulse_endpoints[OF assms, of a] by simp
qed

text \<open>The theorem at the default calibration (offset 68, span 270, pulses from 2590 down to 570) for motor 1.\<close>

theorem angle_to_pulse_monotone_exact_witness:
  "(0 :: real) < 270
   \<and> py_mod (68 - 68) 360 = 0
   \<and> angle_to_pulse (init [] 0 100 160 180 260 270 2590 570 68 214) 68 ''motor1'' = Inr 2590
   \<and> py_mod (338 - 68) 360 = 270
   \<and> angle_to_pulse (init [] 0 100 160 180 260 270 2590 570 68 214) 338 ''motor1'' = Inr 570
   \<and> py_mod (100 - 68) 360 \<le> py_mod (200 - 68) 360 \<and> py_mod (200 - 68) 360 \<le> 270
   \<and> (\<exists>p q. angle_to_pulse (init [] 0 100 160 180 260 270 2590 570 68 214) 100 ''motor1'' = Inr p
         \<and> angle_to_pulse (init [] 0 100 160 180 260 270 2590 570 68 214) 200 ''motor1'' = Inr q
         \<and> q \<le> p)"
proof -
  let ?c = "init [] 0 100 160 180 260 270 2590 570 68 214"
  have f: "motor1_angle_offset ?c = 68" "max_angle ?c = 270" "min_pulse ?c = 2590" "max_pulse ?c = 570"
    by (simp_all add: init_def)
  have m: "py_mod 0 360 = 0" "py_mod 270 360 = 270" "py_mod 32 360 = 32" "py_mod 132 360 = 132"
    by (simp_all add: py_mod_id)
  have h: "''motor1'' = ''motor1'' \<and> (68::real) = motor1_angle_offset ?c
         \<or> ''motor1'' = ''motor2'' \<and> (68::real) = motor2_angle_offset ?c" "0 < max_angle ?c"
    by (simp_all add: f)
  show ?thesis
    using angle_to_pulse_monotone_exact[OF h, of 68] angle_to_pulse_monotone_exact[OF h, of 338]
      angle_to_pulse_monotone_exact[OF h, of 100 200]
    by (simp add: f m)
qed

text \<open>
  The claim C8 as it was stated holds for every calibration. With \<open>max_angle = 0\<close> the
  adjusted angle 0 of motor 2 does not map to \<open>min_pulse\<close>: the division raises
  ZeroDivisionError.
\<close>

theorem angle_to_pulse_endpoint_zero_span:
  "py_mod (214 - motor2_angle_offset (init [] 0 100 160 180 260 0 2590 570 68 214)) 360 = 0
   \<and> angle_to_pulse (init [] 0 100 160 180 260 0 2590 570 68 214) 214 ''motor2'' = Inl ZeroDivisionError
   \<and> angle_to_pulse (init [] 0 100 160 180 260 0 2590 570 68 214) 214 ''motor2''
       \<noteq> Inr (min_pulse (init [] 0 100 160 180 260 0 2590 570 68 214))"
  by (simp add: init_def angle_to_pulse_def py_mod_def)

text \<open>
  C9. With \<open>steps = 1\<close> the only waypoint of \<open>interpolated_flat_move\<close> is the current
  position, not the target: a controller at (0, 100) asked to move to (30, 130) in one
  step commands (0, 100) again, stays there and returns \<^verbatim>\<open>True\<close>.
\<close>

theorem interpolated_flat_move_single_step_skips_target:
  "interpolated_flat_move (init [] 0 100 300 50 250 270 2590 570 68 214) 30 130 1 0
     = (Inr True, init [(0, 1752), (1, 2171)] 0 100 300 50 250 270 2590 570 68 214)"
  unfolding interpolated_one run_single init_tcp by (simp add: ex_move)

text \<open>
  C10 (as amended). For \<open>steps \<ge> 1\<close> the first waypoint of \<open>interpolated_flat_move\<close> is
  the current TCP position, so the first move is a move to where the controller already
  is. With \<open>steps = 1\<close> it is the only waypoint: the call is that single move, the
  controller afterwards is the one that move leaves, so the target is never commanded,
  and the call returns \<^verbatim>\<open>True\<close> exactly when that move succeeds and the delay is not
  negative.
\<close>

theorem interpolated_flat_move_starts_at_current:
  "(1 \<le> steps
    \<longrightarrow> (\<exists>xs ys. linspace (x c) tx steps = Inr (x c # xs) \<and> linspace (y c) ty steps = Inr (y c # ys)
           \<and> interpolated_flat_move c tx ty steps delay = run_waypoints c delay ((x c, y c) # zip xs ys)))
   \<and> interpolated_flat_move c tx ty 1 delay =
       (case flat_move c (x c) (y c) of
          (Inl e, c') \<Rightarrow> (Inl e, c')
        | (Inr None, c') \<Rightarrow> (Inr False, c')
        | (Inr (Some d), c') \<Rightarrow> if delay < 0 then (Inl ValueError, c') else (Inr True, c'))
   \<and> snd (interpolated_flat_move c tx ty 1 delay) = snd (flat_move c (x c) (y c))
   \<and> (fst (interpolated_flat_move c tx ty 1 delay) = Inr True)
       = (0 \<le> delay \<and> (\<exists>d. fst (flat_move c (x c) (y c)) = Inr (Some d)))"
proof -
  have one: "interpolated_flat_move c tx ty 1 delay =
       (case flat_move c (x c) (y c) of
          (Inl e, c') \<Rightarrow> (Inl e, c')
        | (Inr None, c') \<Rightarrow> (Inr False, c')
        | (Inr (Some d), c') \<Rightarrow> if delay < 0 then (Inl ValueError, c') else (Inr True, c'))"
    unfolding interpolated_one by (rule run_single)
  show ?thesis
    using interpolated_first[of steps c tx ty delay] interpolated_one_state[of c tx ty delay]
      interpolated_one_success[of c tx ty delay] one
    by blast
qed

text \<open>The theorem at a controller that can reach its own position (0, 100), asked for (40, 60) in one step.\<close>

theorem interpolated_flat_move_starts_at_current_witness:
  "(1 :: int) \<le> 1
   \<and> interpolated_flat_move (init [] 0 100 300 50 250 270 2590 570 68 214) 40 60 1 (1 / 10)
       = (Inr True, init [(0, 1752), (1, 2171)] 0 100 300 50 250 270 2590 570 68 214)"
  using interpolated_flat_move_starts_at_current[of 1 "init [] 0 100 300 50 250 270 2590 570 68 214" 40 60 "1 / 10"]
  unfolding init_tcp by (simp add: ex_move)

text \<open>
  The claim C10 as it was stated says that the call with \<open>steps = 1\<close> returns success.
  The controller with the default parameters of the source cannot validate its home
  position (0, 100), and the call returns \<^verbatim>\<open>False\<close>.
\<close>

theorem interpolated_flat_move_default_home_fails:
  "interpolated_flat_move (init [] 0 100 160 180 260 270 2590 570 68 214) 50 200 1 (1 / 10)
     = (Inr False, init [] 0 100 160 180 260 270 2590 570 68 214)"
  unfolding interpolated_one run_single init_tcp by (simp add: default_home_rejected)

section \<open>The geometry functions in double precision\<close>

subsection \<open>Rounding to a double\<close>



lemma round64_zero [simp]: "round64 0 = 0"
  by (simp add: round64_def)


text \<open>The value of \<open>round64\<close> on a number whose binade is known.\<close>

lemma round64_binade:
  assumes q: "q = 2 powr real_of_int k" and k: "- 1074 \<le> k"
    and lo: "k = - 1074 \<or> q * 2 ^ 52 \<le> \<bar>v\<bar>" and hi: "\<bar>v\<bar> < q * 2 ^ 53" and nz: "v \<noteq> 0"
  shows "round64 v = q * real_of_int (py_round (v / q))"
proof -
  have qpos: "0 < q" by (simp add: q)
  have a: "0 < \<bar>v\<bar>" using nz by simp
  have p52: "2 powr real_of_int (k + 52) = q * 2 ^ 52" and p53: "2 powr real_of_int (k + 53) = q * 2 ^ 53"
    by (simp_all add: q powr_add)
  have hi': "\<bar>v\<bar> < 2 powr real_of_int (k + 53)"
    using hi unfolding p53 .
  then have "log 2 \<bar>v\<bar> < real_of_int (k + 53)"
    using a by (simp add: log_less_iff)
  then have fl_hi: "\<lfloor>log 2 \<bar>v\<bar>\<rfloor> < k + 53" by (simp add: floor_less_iff)
  have "max \<lfloor>log 2 \<bar>v\<bar>\<rfloor> (- 1022) = k + 52"
  proof (cases "k = - 1074")
    case K: True
    show ?thesis
    proof (cases "q * 2 ^ 52 \<le> \<bar>v\<bar>")
      case True
      then have "2 powr real_of_int (k + 52) \<le> \<bar>v\<bar>"
        unfolding p52 .
      then have "real_of_int (k + 52) \<le> log 2 \<bar>v\<bar>" using a by (simp add: le_log_iff)
      then have "k + 52 \<le> \<lfloor>log 2 \<bar>v\<bar>\<rfloor>" by (simp add: le_floor_iff)
      then show ?thesis using fl_hi K by linarith
    next
      case False
      show ?thesis using fl_hi K by linarith
    qed
  next
    case False
    with lo have "q * 2 ^ 52 \<le> \<bar>v\<bar>" by simp
    then have "2 powr real_of_int (k + 52) \<le> \<bar>v\<bar>"
      unfolding p52 .
    then have "real_of_int (k + 52) \<le> log 2 \<bar>v\<bar>" using a by (simp add: le_log_iff)
    then have "k + 52 \<le> \<lfloor>log 2 \<bar>v\<bar>\<rfloor>" by (simp add: le_floor_iff)
    then show ?thesis using fl_hi k by linarith
  qed
  then show ?thesis using nz by (simp add: round64_def binade_def Let_def q)
qed











text \<open>Two forms for evaluating \<open>round64\<close> at a concrete number: the quantum is \<open>1 / 2\<^sup>n\<close> or \<open>2\<^sup>n\<close>.\<close>

lemma round64_down:
  assumes n: "n \<le> 1074" and lo: "2 ^ 52 \<le> \<bar>v\<bar> * 2 ^ n" and hi: "\<bar>v\<bar> * 2 ^ n < 2 ^ 53"
    and m: "py_round (v * 2 ^ n) = m" and w: "w * 2 ^ n = real_of_int m"
  shows "round64 v = w"
proof -
  have nz: "v \<noteq> 0" using lo by auto
  have q: "1 / 2 ^ n = 2 powr real_of_int (- int n)"
    by (simp add: powr_minus powr_realpow divide_simps)
  have "round64 v = 1 / 2 ^ n * real_of_int (py_round (v / (1 / 2 ^ n)))"
  proof (rule round64_binade[OF q _ _ _ nz])
    show "- 1074 \<le> - int n" using n by simp
    show "- int n = - 1074 \<or> 1 / 2 ^ n * 2 ^ 52 \<le> \<bar>v\<bar>" using lo by (simp add: field_simps)
    show "\<bar>v\<bar> < 1 / 2 ^ n * 2 ^ 53" using hi by (simp add: field_simps)
  qed
  also have "\<dots> = real_of_int m / 2 ^ n" by (simp add: m)
  also have "\<dots> = w" using w by (simp add: field_simps)
  finally show ?thesis .
qed

lemma round64_up:
  assumes lo: "2 ^ 52 * 2 ^ n \<le> \<bar>v\<bar>" and hi: "\<bar>v\<bar> < 2 ^ 53 * 2 ^ n"
    and m: "py_round (v / 2 ^ n) = m" and w: "w = real_of_int m * 2 ^ n"
  shows "round64 v = w"
proof -
  have "(0::real) < 2 ^ 52 * 2 ^ n" by simp
  with lo have "0 < \<bar>v\<bar>" by linarith
  then have nz: "v \<noteq> 0" by simp
  have q: "2 ^ n = 2 powr real_of_int (int n)"
    by (simp add: powr_realpow)
  have "round64 v = 2 ^ n * real_of_int (py_round (v / 2 ^ n))"
  proof (rule round64_binade[OF q _ _ _ nz])
    show "- 1074 \<le> int n" by simp
    show "int n = - 1074 \<or> 2 ^ n * 2 ^ 52 \<le> \<bar>v\<bar>" using lo by (simp add: mult.commute)
    show "\<bar>v\<bar> < 2 ^ n * 2 ^ 53" using hi by (simp add: mult.commute)
  qed
  then show ?thesis by (simp add: m w)
qed

subsection \<open>The exact model is an instance\<close>

lemma linalg_norm_fp_exact: "linalg_norm_fp (\<lambda>t. t) v = linalg_norm v"
  by (simp add: linalg_norm_fp_def linalg_norm_def power2_eq_square)

lemma find_circle_intersections_fp_exact:
  "find_circle_intersections_fp (\<lambda>t. t) (linalg_norm_fp (\<lambda>t. t)) p1 r1 p2 r2
     = find_circle_intersections p1 r1 p2 r2"
  by (simp add: find_circle_intersections_fp_def find_circle_intersections_def linalg_norm_fp_exact
      Let_def power2_eq_square)

lemma calculate_angle_fp_exact:
  "calculate_angle_fp (\<lambda>t. t) (\<lambda>dy dx. Some (arctan2 dy dx)) degrees point intersection
     = calculate_angle point intersection"
  by (simp add: calculate_angle_fp_def calculate_angle_def Let_def split: pyval.splits)

subsection \<open>Circle intersection\<close>

lemma linalg_norm_fp_2:
  "linalg_norm_fp rnd [u, v] = rnd (sqrt (rnd (rnd (u * u) + rnd (v * v))))"
  by (simp add: linalg_norm_fp_def)






lemma fci_fp_trace_none:
  assumes "rnd (bx - ax) = dX" "rnd (by - ay) = dY" "np_norm [dX, dY] = d"
    "rnd (r1 + r2) = sm" "rnd (r1 - r2) = df" "rnd (1 / 10 ^ 9) = e"
    "rnd (r1 * r1) = q1" "rnd (r2 * r2) = q2" "rnd (q1 - q2) = t1" "rnd (d * d) = d2"
    "rnd (t1 + d2) = num" "rnd (2 * d) = den" "rnd (num / den) = a" "rnd (a * a) = a2"
    "rnd (q1 - a2) = hsq"
    and "\<not> d > sm" "\<not> d < \<bar>df\<bar>" "\<not> d < e" "hsq < 0" "\<not> hsq > - e"
  shows "find_circle_intersections_fp rnd np_norm [ax, ay] r1 [bx, by] r2 = PyNone"
  using assms by (simp add: find_circle_intersections_fp_def Let_def)



text \<open>
  A negative radius can vanish in the rounding of both \<open>r1 + r2\<close> and \<open>r1 - r2\<close>: with
  \<open>r1 = -2\<^sup>-\<^sup>1\<^sup>0\<^sup>0\<close> and \<open>r2 = 1\<close> the computed sum and the computed absolute difference are
  both 1.
\<close>

lemma negative_radius_absorbed:
  "round64 (- (1 / 2 ^ 100) + 1) = \<bar>round64 (- (1 / 2 ^ 100) - 1)\<bar>"
proof -
  have n1: "round64 (- (1 / 2 ^ 100) + 1) = 1"
    by (rule round64_down[where n=53 and m="9007199254740992"]) (simp_all add: py_round_def)
  have n2: "round64 (- (1 / 2 ^ 100) - 1) = - 1"
    by (rule round64_down[where n=52 and m="- 4503599627370496"]) (simp_all add: py_round_def)
  show ?thesis unfolding n1 n2 by simp
qed




text \<open>
  C5. The doubles nearest to 2048.85 and 2049.15 add up to 4098 exactly, so the circles
  with these radii and the centres (0, 0) and (4098, 0) are externally tangent. With
  a norm that is 4098 for the vector (4098, 0), the code computes \<open>a\<close> one unit in the
  last place above \<open>r1\<close> and \<open>h\<^sup>2 = -2\<^sup>-\<^sup>2\<^sup>9\<close>, about \<open>-1.86e-9\<close>, which is below the
  tolerance \<open>-1e-9\<close> of its near-tangent branch: it returns \<^verbatim>\<open>None\<close>, not the pair of two
  identical points.
\<close>

theorem find_circle_intersections_fp_tangent_none:
  assumes nrm: "np_norm [4098, 0] = 4098"
  shows "find_circle_intersections_fp round64 np_norm [0, 0] (4505468797137715 / 2199023255552)
           [4098, 0] (4506128504114381 / 2199023255552) = PyNone"
proof -
  have f1: "round64 (4098 - 0) = 4098"
    by (rule round64_down[where n=40 and m="4505798650626048"]) (simp_all add: py_round_def)
  have f2: "round64 (0 - 0) = 0"
    by simp
  have f7: "round64 ((4505468797137715 / 2199023255552) + (4506128504114381 / 2199023255552)) = 4098"
    by (rule round64_down[where n=40 and m="4505798650626048"]) (simp_all add: py_round_def)
  have f8: "round64 ((4505468797137715 / 2199023255552) - (4506128504114381 / 2199023255552)) = - (329853488333 / 1099511627776)"
    by (rule round64_down[where n=54 and m="- 5404319552847872"]) (simp_all add: py_round_def)
  have f9: "round64 (1 / 10 ^ 9) = 4835703278458517 / 4835703278458516698824704"
    by (rule round64_down[where n=82 and m="4835703278458517"]) (simp_all add: py_round_def)
  have f10: "round64 ((4505468797137715 / 2199023255552) * (4505468797137715 / 2199023255552)) = 2253669371341701 / 536870912"
    by (rule round64_down[where n=30 and m="4507338742683402"]) (simp_all add: py_round_def)
  have f11: "round64 ((4506128504114381 / 2199023255552) * (4506128504114381 / 2199023255552)) = 1127164700220457 / 268435456"
    by (rule round64_down[where n=30 and m="4508658800881828"]) (simp_all add: py_round_def)
  have f12: "round64 ((2253669371341701 / 536870912) - (1127164700220457 / 268435456)) = - (660029099213 / 536870912)"
    by (rule round64_down[where n=42 and m="- 5406958380752896"]) (simp_all add: py_round_def)
  have f13: "round64 (4098 * 4098) = 16793604"
    by (rule round64_down[where n=28 and m="4507998747623424"]) (simp_all add: py_round_def)
  have f14: "round64 ((- (660029099213 / 536870912)) + 16793604) = 2253834366536909 / 134217728"
    by (rule round64_down[where n=28 and m="4507668733073818"]) (simp_all add: py_round_def)
  have f15: "round64 (2 * 4098) = 8196"
    by (rule round64_down[where n=39 and m="4505798650626048"]) (simp_all add: py_round_def)
  have f16: "round64 ((2253834366536909 / 134217728) / 8196) = 1126367199284429 / 549755813888"
    by (rule round64_down[where n=41 and m="4505468797137716"]) (simp_all add: py_round_def)
  have f17: "round64 ((1126367199284429 / 549755813888) * (1126367199284429 / 549755813888)) = 1126834685670851 / 268435456"
    by (rule round64_down[where n=30 and m="4507338742683404"]) (simp_all add: py_round_def)
  have f18: "round64 ((2253669371341701 / 536870912) - (1126834685670851 / 268435456)) = - (1 / 536870912)"
    by (rule round64_down[where n=81 and m="- 4503599627370496"]) (simp_all add: py_round_def)
  show ?thesis
    by (rule fci_fp_trace_none[where rnd=round64 and np_norm=np_norm,
          OF f1 f2 nrm f7 f8 f9 f10 f11 f12 f13 f14 f15 f16 f17 f18]) simp_all
qed

text \<open>
  The theorem with the norm computed as the rounded square root of the rounded sum of
  the rounded squares. The same circles in exact arithmetic give the point of tangency
  twice; in double precision this pair is not returned.
\<close>

theorem find_circle_intersections_fp_tangent_none_witness:
  "linalg_norm [4098 - 0, 0 - 0] = (4505468797137715 / 2199023255552) + (4506128504114381 / 2199023255552)
   \<and> find_circle_intersections [0, 0] (4505468797137715 / 2199023255552) [4098, 0] (4506128504114381 / 2199023255552) = NdArray [2, 2] [(4505468797137715 / 2199023255552), 0, (4505468797137715 / 2199023255552), 0]
   \<and> linalg_norm_fp round64 [4098, 0] = 4098
   \<and> find_circle_intersections_fp round64 (linalg_norm_fp round64) [0, 0] (4505468797137715 / 2199023255552) [4098, 0] (4506128504114381 / 2199023255552) \<noteq> NdArray [2, 2] [(4505468797137715 / 2199023255552), 0, (4505468797137715 / 2199023255552), 0]"
proof -
  have t: "linalg_norm [4098 - 0, 0 - 0] = (4505468797137715 / 2199023255552) + (4506128504114381 / 2199023255552)"
    by (simp add: linalg_norm_2)
  have e: "find_circle_intersections [0, 0] (4505468797137715 / 2199023255552) [4098, 0] (4506128504114381 / 2199023255552) = NdArray [2, 2] [(4505468797137715 / 2199023255552), 0, (4505468797137715 / 2199023255552), 0]"
    using fci_tangent_exact[OF t] by simp
  have d2: "round64 (4098 * 4098) = 16793604"
    by (rule round64_down[where n=28 and m="4507998747623424"]) (simp_all add: py_round_def)
  have z: "round64 (0 * 0) = 0" by simp
  have sm: "round64 (16793604 + 0) = 16793604"
    by (rule round64_down[where n=28 and m="4507998747623424"]) (simp_all add: py_round_def)
  have sq: "sqrt 16793604 = 4098"
    by (rule real_sqrt_unique) simp_all
  have rt: "round64 (sqrt 16793604) = 4098"
    unfolding sq by (rule round64_down[where n=40 and m="4505798650626048"]) (simp_all add: py_round_def)
  have nrm: "linalg_norm_fp round64 [4098, 0] = 4098"
    unfolding linalg_norm_fp_2 d2 z sm rt ..
  show ?thesis
    using t e nrm find_circle_intersections_fp_tangent_none[of "linalg_norm_fp round64"] by simp
qed

subsection \<open>Bearing angle\<close>

lemma arctan_ge_self_neg:
  assumes "t < 0"
  shows "t \<le> arctan t"
proof -
  have "\<exists>z. t < z \<and> z < 0 \<and> arctan 0 - arctan t = (0 - t) * inverse (1 + z\<^sup>2)"
    by (rule MVT2[OF assms]) (rule DERIV_arctan)
  then obtain z where z: "arctan 0 - arctan t = (0 - t) * inverse (1 + z\<^sup>2)" by blast
  have "inverse (1 + z\<^sup>2) \<le> 1" by (simp add: inverse_le_1_iff)
  then have "(0 - t) * inverse (1 + z\<^sup>2) \<le> (0 - t) * 1"
    using assms by (intro mult_left_mono) simp_all
  with z show ?thesis by simp
qed

text \<open>
  C7. Whenever the library returns for the two points a negative angle above
  \<open>-2\<^sup>-\<^sup>4\<^sup>5\<close> degrees, the sum \<^verbatim>\<open>angle + 360.0\<close> is rounded to 360.0 and
  \<open>calculate_angle\<close> returns exactly 360, which is outside [0, 360).
\<close>

theorem calculate_angle_fp_returns_360:
  assumes lib: "np_arctan2 (round64 (qy - py)) (round64 (qx - px)) = Some radians"
    and neg: "np_degrees radians < 0"
    and small: "- (1 / 2 ^ 45) < np_degrees radians"
  shows "calculate_angle_fp round64 np_arctan2 np_degrees (NdArray [2] [px, py]) (NdArray [2] [qx, qy])
     = Some 360"
proof -
  define a where "a = np_degrees radians"
  have a: "a < 0" "- (1 / 2 ^ 45) < a" using neg small by (simp_all add: a_def)
  have fl: "\<lfloor>(a + 360) * 2 ^ 44\<rfloor> = 360 * 2 ^ 44 - 1"
    using a by (intro floor_unique) (simp_all add: field_simps)
  have "py_round ((a + 360) * 2 ^ 44) = 360 * 2 ^ 44"
    using a unfolding py_round_def Let_def fl by (simp add: field_simps)
  then have "round64 (a + 360) = 360"
    using a by (intro round64_down[where n=44 and m="360 * 2 ^ 44"]) (simp_all add: field_simps)
  then show ?thesis using a(1) lib
    by (simp add: calculate_angle_fp_def Let_def a_def[symmetric])
qed

text \<open>The theorem at the points (0, 0) and (1, -1e-20), the second coordinate being the double nearest to \<open>-1e-20\<close>, with the exact \<open>arctan2\<close> and \<open>degrees\<close> for the library.\<close>

theorem calculate_angle_fp_returns_360_witness:
  "degrees (arctan2 (round64 ((- (6646139978924579 / 664613997892457936451903530140172288)) - 0)) (round64 (1 - 0))) < 0
   \<and> - (1 / 2 ^ 45) < degrees (arctan2 (round64 ((- (6646139978924579 / 664613997892457936451903530140172288)) - 0)) (round64 (1 - 0)))
   \<and> calculate_angle_fp round64 (\<lambda>dy dx. Some (arctan2 dy dx)) degrees
         (NdArray [2] [0, 0]) (NdArray [2] [1, (- (6646139978924579 / 664613997892457936451903530140172288))])
       = Some 360"
proof -
  have y0: "round64 ((- (6646139978924579 / 664613997892457936451903530140172288)) - 0) = - (6646139978924579 / 664613997892457936451903530140172288)"
    by (rule round64_down[where n=119 and m="- 6646139978924579"]) (simp_all add: py_round_def)
  have one: "round64 (1 - 0) = 1"
    by (rule round64_down[where n=52 and m="4503599627370496"]) (simp_all add: py_round_def)
  have at: "arctan2 (- (6646139978924579 / 664613997892457936451903530140172288)) 1 = arctan (- (6646139978924579 / 664613997892457936451903530140172288))"
    by (simp add: arctan2_def)
  have lo: "(- (6646139978924579 / 664613997892457936451903530140172288)) \<le> arctan (- (6646139978924579 / 664613997892457936451903530140172288))"
    by (rule arctan_ge_self_neg) simp
  have hi: "arctan (- (6646139978924579 / 664613997892457936451903530140172288)) < 0" by simp
  have p: "2 \<le> pi" by (rule pi_ge_two)
  have d1: "degrees (arctan (- (6646139978924579 / 664613997892457936451903530140172288))) < 0"
    unfolding degrees_def using hi p by (simp add: field_simps)
  have "- (1 / 2 ^ 45) * pi < (- (6646139978924579 / 664613997892457936451903530140172288)) * 180" using p by simp
  also have "\<dots> \<le> arctan (- (6646139978924579 / 664613997892457936451903530140172288)) * 180" using lo by simp
  finally have d2: "- (1 / 2 ^ 45) < degrees (arctan (- (6646139978924579 / 664613997892457936451903530140172288)))"
    unfolding degrees_def using p by (simp add: field_simps)
  have h: "degrees (arctan2 (round64 ((- (6646139978924579 / 664613997892457936451903530140172288)) - 0)) (round64 (1 - 0))) < 0"
     "- (1 / 2 ^ 45) < degrees (arctan2 (round64 ((- (6646139978924579 / 664613997892457936451903530140172288)) - 0)) (round64 (1 - 0)))"
    unfolding y0 one at using d1 d2 by simp_all
  show ?thesis
    using h calculate_angle_fp_returns_360[of "\<lambda>dy dx. Some (arctan2 dy dx)" _ 0 1 0 _ degrees, OF _ h]
    by simp
qed

end
